theory Spec2Isabelle
  imports Main "HOL-Library.Word" "HOL-Library.Sublist"
begin

unbundle bit_operations_syntax

chapter \<open>The model of cec-test.cpp\<close>

section \<open>Constants of the headers\<close>

text \<open>
  \<^verbatim>\<open>cec-test.cpp\<close> includes \<^verbatim>\<open>cec-compliance.h\<close> (and, through it, the
  kernel's CEC headers). The outcome codes and the protocol constants it takes from there
  are parameters of the model: every function that uses one receives the record below, and
  a theorem assumes about its fields only what it says. The one value the source itself
  fixes is the passing outcome: it writes \<^verbatim>\<open>return 0\<close> and \<^verbatim>\<open>!ret\<close> for it.
\<close>

record cec_consts =
  OK :: int
  FAIL :: int
  OK_NOT_SUPPORTED :: int
  OK_UNEXPECTED :: int
  OK_EXPECTED_FAIL :: int
  NOTAPPLICABLE :: int
  FAIL_CRITICAL :: int
  DONT_CARE :: int
  CEC_OP_CEC_VERSION_2_0 :: "8 word"
  CEC_OP_ABORT_UNRECOGNIZED_OP :: "8 word"
  CEC_OP_ABORT_INVALID_OP :: "8 word"
  CEC_LOG_ADDR_BROADCAST :: nat
  CEC_OP_REC_SEQ_ONCE_ONLY :: "8 word"
  CEC_OP_TIMER_CLR_STAT_RECORDING :: "8 word"
  CEC_OP_TIMER_CLR_STAT_NO_MATCHING :: "8 word"
  CEC_OP_TIMER_CLR_STAT_NO_INFO :: "8 word"
  CEC_OP_TIMER_CLR_STAT_CLEARED :: "8 word"

text \<open>\<^verbatim>\<open>enum Months { Jan = 1, Feb, ... }\<close>: the members the model needs.\<close>

definition Jan :: int where "Jan = 1"
definition Feb :: int where "Feb = 2"
definition Aug :: int where "Aug = 8"
definition Nov :: int where "Nov = 11"
definition Dec :: int where "Dec = 12"

section \<open>Messages\<close>

text \<open>
  A message that a subtest builds is kept as the call that builds it: the two addresses of
  \<^verbatim>\<open>cec_msg_init\<close> and the arguments that vary. The analogue timer messages are
  always built with \<^verbatim>\<open>CEC_OP_ANA_BCAST_TYPE_CABLE\<close> and frequency 7668; their
  \<^verbatim>\<open>__u8\<close> arguments are the fields of \<open>timer\<close>.
\<close>

record timer =
  day :: "8 word"
  month :: "8 word"
  start_hr :: "8 word"
  start_min :: "8 word"
  duration_hr :: "8 word"
  duration_min :: "8 word"
  recording_seq :: "8 word"

datatype request =
    Opcode_only nat nat "8 word"
  | Set_analogue_timer nat nat timer "8 word"
  | Clear_analogue_timer nat nat timer "8 word"

text \<open>
  After \<^verbatim>\<open>transmit_timeout\<close> the message holds the reply, and the source looks at
  it only through accessors of the headers. A reply is the record of what each accessor
  returns on it: \<^verbatim>\<open>timed_out\<close>, \<^verbatim>\<open>cec_msg_status_is_abort\<close>,
  \<^verbatim>\<open>timed_out_or_abort\<close>, \<^verbatim>\<open>unrecognized_op\<close>, \<^verbatim>\<open>abort_reason\<close>, the two
  outputs of \<^verbatim>\<open>cec_ops_feature_abort\<close>, the six of \<^verbatim>\<open>cec_ops_timer_status\<close> and
  the one of \<^verbatim>\<open>cec_ops_timer_cleared_status\<close>.
\<close>

record reply =
  timed_out :: bool
  status_is_abort :: bool
  timed_out_or_abort :: bool
  msg_unrecognized_op :: bool
  abort_reason :: "8 word"
  feature_abort_msg :: "8 word"
  feature_abort_reason :: "8 word"
  ts_overlap_warning :: "8 word"
  ts_media_info :: "8 word"
  ts_prog_info :: "8 word"
  ts_prog_error :: "8 word"
  ts_duration_hr :: "8 word"
  ts_duration_min :: "8 word"
  timer_cleared_status :: "8 word"

text \<open>The fields of \<^verbatim>\<open>struct tm\<close> that the source reads.\<close>

record tm =
  tm_min :: int
  tm_hour :: int
  tm_mday :: int
  tm_mon :: int
  tm_year :: int

section \<open>The node and its remote devices\<close>

text \<open>
  \<^verbatim>\<open>struct node\<close> holds one \<^verbatim>\<open>remote\<close> entry per logical address. The two
  tables \<^verbatim>\<open>recognized_op[256]\<close> and \<^verbatim>\<open>unrecognized_op[256]\<close> are indexed by
  opcode; only the indices below 256 are ever read. The global counter
  \<^verbatim>\<open>warnings\<close> travels with the node. \<open>bus_log\<close> is a history variable: the model's
  \<open>transmit_timeout\<close> appends every message sent, with what came back; no function
  of the source reads it.
\<close>

record remote_device =
  recognized_op :: "nat \<Rightarrow> bool"
  unrecognized_op :: "nat \<Rightarrow> bool"
  cec_version :: "8 word"
  bcast_sys :: "8 word"
  remote_in_standby :: bool

record node =
  remote :: "nat \<Rightarrow> remote_device"
  has_cec20 :: bool
  in_standby :: bool
  current_time :: int
  warnings :: "32 word"
  bus_log :: "(request \<times> bool \<times> reply) list"

section \<open>Post-test check\<close>

text \<open>
  \<^verbatim>\<open>post_test_check_recognized\<close>: the loop over \<^verbatim>\<open>i = 0 .. 255\<close> sets the
  local flag \<^verbatim>\<open>fail\<close> at every opcode marked both ways; \<^verbatim>\<open>fail_on_test(fail)\<close>
  then returns the value of the \<^verbatim>\<open>fail(...)\<close> macro, which is \<^verbatim>\<open>FAIL\<close>.
  Nothing of the node is written.
\<close>

definition check_recognized_step :: "remote_device \<Rightarrow> nat \<Rightarrow> bool \<Rightarrow> bool" where
  "check_recognized_step r i fail =
     (if recognized_op r i \<and> unrecognized_op r i then True else fail)"

definition post_test_check_recognized ::
  "cec_consts \<Rightarrow> 'x node_scheme \<Rightarrow> nat \<Rightarrow> nat \<Rightarrow> bool \<Rightarrow> int" where
  "post_test_check_recognized c node me la interactive =
     (let fail = fold (check_recognized_step (remote node la)) [0..<256] False
      in if fail then FAIL c else 0)"

section \<open>The catalogue and the expectation maps\<close>

text \<open>
  \<^verbatim>\<open>struct remote_subtest\<close> (the element of \<^verbatim>\<open>vec_remote_subtests\<close>) and
  \<^verbatim>\<open>struct remote_test\<close>. A test function is a function pointer: the type \<open>'f\<close>
  stands for its address, compared by equality in \<^verbatim>\<open>collectTests\<close> and resolved to
  the code it points at by the parameter \<open>call\<close> of the dispatcher.
\<close>

record 'f remote_subtest =
  subtest_name :: string
  la_mask :: "16 word"
  test_fn :: 'f
  subtest_in_standby :: bool
  for_cec20 :: bool

record 'f remote_test =
  test_name :: string
  tags :: "32 word"
  subtests :: "'f remote_subtest list"

text \<open>
  \<^verbatim>\<open>mapTests\<close> and \<^verbatim>\<open>mapTestsNoWarnings\<close> are \<^verbatim>\<open>std::map\<close>s keyed by the
  sanitized name. Reading with \<^verbatim>\<open>operator[]\<close> gives the stored value, or the
  value-initialized default for a key that is absent (it also stores that default, which
  no later read through \<^verbatim>\<open>operator[]\<close> can tell from absence; the dispatcher only
  reads this way, so it is given the maps and does not return them).
\<close>

definition mapTests_at :: "(string \<rightharpoonup> int) \<Rightarrow> string \<Rightarrow> int" where
  "mapTests_at m k = (case m k of None \<Rightarrow> 0 | Some v \<Rightarrow> v)"

definition mapTestsNoWarnings_at :: "(string \<rightharpoonup> bool) \<Rightarrow> string \<Rightarrow> bool" where
  "mapTestsNoWarnings_at m k = (case m k of None \<Rightarrow> False | Some v \<Rightarrow> v)"

section \<open>collectTests\<close>

text \<open>
  \<^verbatim>\<open>collectTests\<close> walks the catalogue, group by group and subtest by subtest, with
  the local map \<^verbatim>\<open>mapTestFuncs\<close>. \<^verbatim>\<open>std::exit(EXIT_FAILURE)\<close> ends the process:
  the result is then \<open>Inl EXIT_FAILURE\<close>, otherwise the two global maps as the loops
  leave them. \<^verbatim>\<open>safename\<close> is declared in the header and is a parameter.
\<close>

datatype exit_status = EXIT_FAILURE

type_synonym 'f collect_state = "(string \<rightharpoonup> 'f) \<times> (string \<rightharpoonup> int) \<times> (string \<rightharpoonup> bool)"

fun collectTests_subtests ::
  "cec_consts \<Rightarrow> (string \<Rightarrow> string) \<Rightarrow> 'f remote_subtest list \<Rightarrow> 'f collect_state
     \<Rightarrow> exit_status + 'f collect_state" where
  "collectTests_subtests c safename [] st = Inr st"
| "collectTests_subtests c safename (subtest # rest) (mapTestFuncs, mapTests, mapTestsNoWarnings) =
     (let name = safename (subtest_name subtest);
          func = test_fn subtest
      in if mapTestFuncs name \<noteq> None \<and> mapTestFuncs name \<noteq> Some func
         then Inl EXIT_FAILURE
         else collectTests_subtests c safename rest
                (mapTestFuncs(name \<mapsto> func), mapTests(name \<mapsto> DONT_CARE c),
                 mapTestsNoWarnings(name \<mapsto> False)))"

fun collectTests_tests ::
  "cec_consts \<Rightarrow> (string \<Rightarrow> string) \<Rightarrow> 'f remote_test list \<Rightarrow> 'f collect_state
     \<Rightarrow> exit_status + 'f collect_state" where
  "collectTests_tests c safename [] st = Inr st"
| "collectTests_tests c safename (test # rest) st =
     (case collectTests_subtests c safename (subtests test) st of
        Inl e \<Rightarrow> Inl e
      | Inr st' \<Rightarrow> collectTests_tests c safename rest st')"

definition collectTests ::
  "cec_consts \<Rightarrow> (string \<Rightarrow> string) \<Rightarrow> 'f remote_test list
     \<Rightarrow> (string \<rightharpoonup> int) \<times> (string \<rightharpoonup> bool)
     \<Rightarrow> exit_status + (string \<rightharpoonup> int) \<times> (string \<rightharpoonup> bool)" where
  "collectTests c safename tests maps =
     (case collectTests_tests c safename tests (Map.empty, fst maps, snd maps) of
        Inl e \<Rightarrow> Inl e
      | Inr (mapTestFuncs, mapTests, mapTestsNoWarnings) \<Rightarrow> Inr (mapTests, mapTestsNoWarnings))"

section \<open>setExpectedResult\<close>

text \<open>
  \<^verbatim>\<open>std::strchr\<close> as the index of the first occurrence; \<^verbatim>\<open>isdigit\<close> in the C
  locale; \<^verbatim>\<open>equal[1]\<close> is the terminating NUL when \<^verbatim>\<open>'='\<close> is the last character.
  \<^verbatim>\<open>strtoul(equal + 1, nullptr, 0)\<close> belongs to the C library and is the parameter
  \<open>strtoul\<close>, applied to the text after \<^verbatim>\<open>'='\<close>; its \<^verbatim>\<open>unsigned long\<close> is stored
  in an \<^verbatim>\<open>int\<close>, which keeps the low 32 bits. The result is the returned value with
  the two maps.
\<close>

fun strchr :: "string \<Rightarrow> char \<Rightarrow> nat option" where
  "strchr [] ch = None"
| "strchr (x # xs) ch = (if x = ch then Some 0 else map_option Suc (strchr xs ch))"

definition isdigit :: "char \<Rightarrow> bool" where
  "isdigit ch = (48 \<le> (of_char ch :: nat) \<and> (of_char ch :: nat) \<le> 57)"

definition char_at :: "string \<Rightarrow> nat \<Rightarrow> char" where
  "char_at s i = (if i < length s then s ! i else CHR 0x00)"

definition int_of_ulong :: "nat \<Rightarrow> int" where
  "int_of_ulong v = sint (word_of_nat v :: 32 word)"

definition setExpectedResult ::
  "(string \<Rightarrow> string) \<Rightarrow> (string \<Rightarrow> nat) \<Rightarrow> string \<Rightarrow> bool
     \<Rightarrow> (string \<rightharpoonup> int) \<times> (string \<rightharpoonup> bool)
     \<Rightarrow> int \<times> (string \<rightharpoonup> int) \<times> (string \<rightharpoonup> bool)" where
  "setExpectedResult safename strtoul optarg no_warnings maps =
     (case strchr optarg CHR ''='' of
        None \<Rightarrow> (1, maps)
      | Some equal \<Rightarrow>
          if equal = 0 \<or> \<not> isdigit (char_at optarg (equal + 1)) then (1, maps)
          else
            let name = safename (take equal optarg) in
            if fst maps name = None then (1, maps)
            else (0, (fst maps)(name \<mapsto> int_of_ulong (strtoul (drop (equal + 1) optarg))),
                     (snd maps)(name \<mapsto> no_warnings)))"

section \<open>The dispatcher\<close>

text \<open>
  What \<^verbatim>\<open>testRemote\<close> uses from outside the file: \<^verbatim>\<open>safename\<close>, the call
  through a subtest's function pointer, \<^verbatim>\<open>mode_set_initiator\<close>, the mask that
  \<^verbatim>\<open>doioctl(node, CEC_ADAP_G_LOG_ADDRS, ...)\<close> reads from the adapter,
  \<^verbatim>\<open>util_interactive_ensure_power_state\<close>, and the transmission of the
  Report Physical Address message before the loops.
\<close>

record ('f, 'x) dispatch =
  safename :: "string \<Rightarrow> string"
  call :: "'f \<Rightarrow> nat \<Rightarrow> nat \<Rightarrow> bool \<Rightarrow> 'x node_scheme \<Rightarrow> int \<times> 'x node_scheme"
  mode_set_initiator :: "'x node_scheme \<Rightarrow> 'x node_scheme"
  log_addr_mask :: "'x node_scheme \<Rightarrow> 16 word"
  util_interactive_ensure_power_state ::
    "nat \<Rightarrow> nat \<Rightarrow> bool \<Rightarrow> 'x node_scheme \<Rightarrow> bool \<times> 'x node_scheme"
  report_physical_addr :: "nat \<Rightarrow> nat \<Rightarrow> 'x node_scheme \<Rightarrow> 'x node_scheme"

text \<open>
  The line that \<^verbatim>\<open>testRemote\<close> prints for a subtest: the outcome handed to
  \<^verbatim>\<open>ok()\<close>, and for the two mismatch lines what is printed after it (expected and
  obtained outcome; the number of warnings). The headings of the groups are left out.
\<close>

datatype report =
    Plain int
  | Expected_got int int int
  | Expected_no_warnings int "32 word"

fun shown :: "report \<Rightarrow> int" where
  "shown (Plain r) = r"
| "shown (Expected_got r e g) = r"
| "shown (Expected_no_warnings r n) = r"

text \<open>
  What the loop did with a subtest it reached: skipped it on a \<^verbatim>\<open>continue\<close>, or
  ran it (the value the test function returned, the value of \<^verbatim>\<open>ret\<close> after line
  2277, \<^verbatim>\<open>has_warnings\<close>, and the line printed, if any).
\<close>

datatype 'f event =
    Skipped "'f remote_subtest"
  | Ran "'f remote_subtest" int int bool "report option"

fun ev_subtest :: "'f event \<Rightarrow> 'f remote_subtest" where
  "ev_subtest (Skipped s) = s"
| "ev_subtest (Ran s raw ret w rep) = s"

fun is_critical :: "cec_consts \<Rightarrow> 'f event \<Rightarrow> bool" where
  "is_critical c (Skipped s) = False"
| "is_critical c (Ran s raw ret w rep) = (ret = FAIL_CRITICAL c)"

text \<open>Lines 2279 to 2293.\<close>

definition report_line ::
  "cec_consts \<Rightarrow> ('f, 'x) dispatch \<Rightarrow> (string \<rightharpoonup> int) \<Rightarrow> (string \<rightharpoonup> bool)
     \<Rightarrow> string \<Rightarrow> int \<Rightarrow> bool \<Rightarrow> 32 word \<Rightarrow> report option" where
  "report_line c D mapTests mapTestsNoWarnings name ret has_warnings n =
     (if mapTests_at mapTests (safename D name) \<noteq> DONT_CARE c then
        (if ret \<noteq> mapTests_at mapTests (safename D name)
           then Some (Expected_got (FAIL c) (mapTests_at mapTests (safename D name)) ret)
         else if has_warnings \<and> mapTestsNoWarnings_at mapTestsNoWarnings (safename D name)
           then Some (Expected_no_warnings (FAIL c) n)
         else if ret = FAIL c then Some (Plain (OK_EXPECTED_FAIL c))
         else Some (Plain ret))
      else if ret \<noteq> NOTAPPLICABLE c then Some (Plain ret)
      else None)"

text \<open>
  The body of the inner loop, lines 2258 to 2293. \<^verbatim>\<open>subtest.la_mask & (1 << la)\<close>
  is computed in \<^verbatim>\<open>int\<close>; for a logical address below 16 a 16-bit mask has the
  same bit.
\<close>

definition testRemote_subtest ::
  "cec_consts \<Rightarrow> ('f, 'x) dispatch \<Rightarrow> (string \<rightharpoonup> int) \<Rightarrow> (string \<rightharpoonup> bool)
     \<Rightarrow> nat \<Rightarrow> nat \<Rightarrow> bool \<Rightarrow> 'f remote_subtest \<Rightarrow> 'x node_scheme
     \<Rightarrow> 'f event \<times> 'x node_scheme" where
  "testRemote_subtest c D mapTests mapTestsNoWarnings me la interactive subtest node =
     (if for_cec20 subtest \<and>
         (cec_version (remote node la) < CEC_OP_CEC_VERSION_2_0 c \<or> \<not> has_cec20 node)
        then (Skipped subtest, node)
      else if subtest_in_standby subtest \<and> log_addr_mask D node = 0
        then (Skipped subtest, node)
      else
        let node1 = mode_set_initiator D (node\<lparr>in_standby := subtest_in_standby subtest\<rparr>);
            old_warnings = warnings node1;
            (r, node2) = call D (test_fn subtest) me la interactive node1;
            has_warnings = (old_warnings < warnings node2);
            ret = (if la_mask subtest AND push_bit la 1 = 0 \<and> r = 0 then OK_UNEXPECTED c else r)
        in (Ran subtest r ret has_warnings
              (report_line c D mapTests mapTestsNoWarnings (subtest_name subtest) ret
                 has_warnings (warnings node2 - old_warnings)),
            node2))"

text \<open>
  The inner loop. The flag tells whether it left through the \<^verbatim>\<open>return\<close> of line
  2295, which also leaves the outer loop and the function.
\<close>

fun testRemote_subtests ::
  "cec_consts \<Rightarrow> ('f, 'x) dispatch \<Rightarrow> (string \<rightharpoonup> int) \<Rightarrow> (string \<rightharpoonup> bool)
     \<Rightarrow> nat \<Rightarrow> nat \<Rightarrow> bool \<Rightarrow> 'f remote_subtest list \<Rightarrow> 'x node_scheme
     \<Rightarrow> bool \<times> 'f event list \<times> 'x node_scheme" where
  "testRemote_subtests c D mapTests mapTestsNoWarnings me la interactive [] node =
     (False, [], node)"
| "testRemote_subtests c D mapTests mapTestsNoWarnings me la interactive (subtest # rest) node =
     (let (ev, node1) =
            testRemote_subtest c D mapTests mapTestsNoWarnings me la interactive subtest node
      in if is_critical c ev then (True, [ev], node1)
         else
           let (stop, evs, node2) =
                 testRemote_subtests c D mapTests mapTestsNoWarnings me la interactive rest node1
           in (stop, ev # evs, node2))"

text \<open>The outer loop, lines 2252 to 2298.\<close>

fun testRemote_tests ::
  "cec_consts \<Rightarrow> ('f, 'x) dispatch \<Rightarrow> (string \<rightharpoonup> int) \<Rightarrow> (string \<rightharpoonup> bool)
     \<Rightarrow> 32 word \<Rightarrow> nat \<Rightarrow> nat \<Rightarrow> bool \<Rightarrow> 'f remote_test list \<Rightarrow> 'x node_scheme
     \<Rightarrow> bool \<times> 'f event list \<times> 'x node_scheme" where
  "testRemote_tests c D mapTests mapTestsNoWarnings test_tags me la interactive [] node =
     (False, [], node)"
| "testRemote_tests c D mapTests mapTestsNoWarnings test_tags me la interactive (test # rest) node =
     (if tags test AND test_tags \<noteq> tags test
        then testRemote_tests c D mapTests mapTestsNoWarnings test_tags me la interactive rest node
      else
        let (stop, evs, node1) =
              testRemote_subtests c D mapTests mapTestsNoWarnings me la interactive
                (subtests test) node
        in if stop then (True, evs, node1)
           else
             let (stop', evs', node2) =
                   testRemote_tests c D mapTests mapTestsNoWarnings test_tags me la interactive
                     rest node1
             in (stop', evs @ evs', node2))"

text \<open>
  \<^verbatim>\<open>testRemote\<close>. The first component names the \<^verbatim>\<open>return\<close> it left through:
  line 2233, line 2236, line 2295 or the end of the function.
\<close>

datatype exit_point = Return_power_state | Return_standby | Return_critical | Return_end

definition testRemote ::
  "cec_consts \<Rightarrow> ('f, 'x) dispatch \<Rightarrow> (string \<rightharpoonup> int) \<Rightarrow> (string \<rightharpoonup> bool)
     \<Rightarrow> 'f remote_test list \<Rightarrow> 'x node_scheme \<Rightarrow> nat \<Rightarrow> nat \<Rightarrow> 32 word \<Rightarrow> bool
     \<Rightarrow> exit_point \<times> 'f event list \<times> 'x node_scheme" where
  "testRemote c D mapTests mapTestsNoWarnings tests node me la test_tags interactive =
     (let (powered, node1) = util_interactive_ensure_power_state D me la interactive node
      in if \<not> powered then (Return_power_state, [], node1)
         else if remote_in_standby (remote node1 la) \<and> \<not> interactive
           then (Return_standby, [], node1)
         else
           let node2 = report_physical_addr D me la node1;
               (stop, evs, node3) =
                 testRemote_tests c D mapTests mapTestsNoWarnings test_tags me la interactive
                   tests node2
           in (if stop then Return_critical else Return_end, evs, node3))"

section \<open>The bus\<close>

text \<open>
  What the subtests use from outside the file: the exchange behind
  \<^verbatim>\<open>transmit_timeout\<close> (it sends the message, waits for the reply up to the timeout,
  \<open>None\<close> being the default one, and tells whether the transmission succeeded), the
  value of the macro \<^verbatim>\<open>fail_or_warn(node, ...)\<close>, and \<^verbatim>\<open>localtime\<close>.
\<close>

record 'x bus =
  bus_transmit :: "request \<Rightarrow> nat option \<Rightarrow> 'x node_scheme \<Rightarrow> (bool \<times> reply) \<times> 'x node_scheme"
  fail_or_warn :: "'x node_scheme \<Rightarrow> int \<times> 'x node_scheme"
  localtime :: "int \<Rightarrow> tm"

definition transmit_timeout ::
  "'x bus \<Rightarrow> request \<Rightarrow> nat option \<Rightarrow> 'x node_scheme \<Rightarrow> (bool \<times> reply) \<times> 'x node_scheme" where
  "transmit_timeout B req tmo node =
     (let ((ok, msg), node1) = bus_transmit B req tmo node
      in ((ok, msg), node1\<lparr>bus_log := bus_log node @ [(req, ok, msg)]\<rparr>))"

text \<open>
  A run of statements \<^verbatim>\<open>fail_on_test(f(node, ...));\<close> followed by the rest of the
  function: the first call that returns a non-zero value makes the function return
  \<^verbatim>\<open>FAIL\<close>.
\<close>

fun fail_on_tests ::
  "cec_consts \<Rightarrow> ('s \<Rightarrow> int \<times> 's) list \<Rightarrow> ('s \<Rightarrow> int \<times> 's) \<Rightarrow> 's \<Rightarrow> int \<times> 's" where
  "fail_on_tests c [] rest node = rest node"
| "fail_on_tests c (f # fs) rest node =
     (let (r, node1) = f node
      in if r \<noteq> 0 then (FAIL c, node1) else fail_on_tests c fs rest node1)"

section \<open>Timer helpers\<close>

definition timer_has_error :: "reply \<Rightarrow> bool" where
  "timer_has_error msg = (if ts_prog_error msg \<noteq> 0 then True else False)"

definition timer_overlap_warning_is_set :: "reply \<Rightarrow> bool" where
  "timer_overlap_warning_is_set msg = (if ts_overlap_warning msg \<noteq> 0 then True else False)"

definition timer_cleared_status_is_valid :: "cec_consts \<Rightarrow> reply \<Rightarrow> int" where
  "timer_cleared_status_is_valid c msg =
     (if timer_cleared_status msg \<noteq> CEC_OP_TIMER_CLR_STAT_RECORDING c \<and>
         timer_cleared_status msg \<noteq> CEC_OP_TIMER_CLR_STAT_NO_MATCHING c \<and>
         timer_cleared_status msg \<noteq> CEC_OP_TIMER_CLR_STAT_NO_INFO c \<and>
         timer_cleared_status msg \<noteq> CEC_OP_TIMER_CLR_STAT_CLEARED c
      then FAIL c else OK c)"

definition mk_timer ::
  "8 word \<Rightarrow> 8 word \<Rightarrow> 8 word \<Rightarrow> 8 word \<Rightarrow> 8 word \<Rightarrow> 8 word \<Rightarrow> 8 word \<Rightarrow> timer" where
  "mk_timer d m sh sm dh dm rs =
     \<lparr>day = d, month = m, start_hr = sh, start_min = sm, duration_hr = dh, duration_min = dm,
      recording_seq = rs\<rparr>"

definition send_timer_error ::
  "cec_consts \<Rightarrow> 'x bus \<Rightarrow> nat \<Rightarrow> nat \<Rightarrow> 8 word \<Rightarrow> 8 word \<Rightarrow> 8 word \<Rightarrow> 8 word \<Rightarrow> 8 word
     \<Rightarrow> 8 word \<Rightarrow> 8 word \<Rightarrow> 'x node_scheme \<Rightarrow> int \<times> 'x node_scheme" where
  "send_timer_error c B me la d m sh sm dh dm rs node =
     (let ((ok, msg), node1) =
            transmit_timeout B
              (Set_analogue_timer me la (mk_timer d m sh sm dh dm rs) (bcast_sys (remote node la)))
              (Some 10000) node
      in if \<not> ok then (FAIL c, node1)
         else if timed_out msg then (FAIL c, node1)
         else if status_is_abort msg then
           (if abort_reason msg \<noteq> CEC_OP_ABORT_INVALID_OP c then (FAIL c, node1)
            else (OK c, node1))
         else if \<not> timer_has_error msg then (FAIL c, node1)
         else (OK c, node1))"

definition send_timer_overlap ::
  "cec_consts \<Rightarrow> 'x bus \<Rightarrow> nat \<Rightarrow> nat \<Rightarrow> 8 word \<Rightarrow> 8 word \<Rightarrow> 8 word \<Rightarrow> 8 word \<Rightarrow> 8 word
     \<Rightarrow> 8 word \<Rightarrow> 8 word \<Rightarrow> 'x node_scheme \<Rightarrow> int \<times> 'x node_scheme" where
  "send_timer_overlap c B me la d m sh sm dh dm rs node =
     (let ((ok, msg), node1) =
            transmit_timeout B
              (Set_analogue_timer me la (mk_timer d m sh sm dh dm rs) (bcast_sys (remote node la)))
              (Some 10000) node
      in if \<not> ok then (FAIL c, node1)
         else if timed_out_or_abort msg then (FAIL c, node1)
         else if timer_has_error msg then (FAIL c, node1)
         else if \<not> timer_overlap_warning_is_set msg then (FAIL c, node1)
         else (OK c, node1))"

definition clear_timer ::
  "cec_consts \<Rightarrow> 'x bus \<Rightarrow> nat \<Rightarrow> nat \<Rightarrow> 8 word \<Rightarrow> 8 word \<Rightarrow> 8 word \<Rightarrow> 8 word \<Rightarrow> 8 word
     \<Rightarrow> 8 word \<Rightarrow> 8 word \<Rightarrow> 'x node_scheme \<Rightarrow> int \<times> 'x node_scheme" where
  "clear_timer c B me la d m sh sm dh dm rs node =
     (let ((ok, msg), node1) =
            transmit_timeout B
              (Clear_analogue_timer me la (mk_timer d m sh sm dh dm rs) (bcast_sys (remote node la)))
              (Some 10000) node
      in if \<not> ok then (FAIL c, node1)
         else if timed_out_or_abort msg then (FAIL c, node1)
         else if timer_has_error msg then (FAIL c, node1)
         else if timer_cleared_status_is_valid c msg \<noteq> 0 then (FAIL c, node1)
         else (OK c, node1))"

section \<open>core\_unknown\<close>

text \<open>Lines 405 to 436.\<close>

definition core_unknown ::
  "cec_consts \<Rightarrow> 'x bus \<Rightarrow> 'x node_scheme \<Rightarrow> nat \<Rightarrow> nat \<Rightarrow> bool \<Rightarrow> int \<times> 'x node_scheme" where
  "core_unknown c B node me la interactive =
     (let unknown_opcode = 0xfe;
          ((ok, msg), node1) = transmit_timeout B (Opcode_only me la unknown_opcode) None node
      in if \<not> ok \<or> timed_out msg then fail_or_warn B node1
         else if \<not> status_is_abort msg then (FAIL c, node1)
         else if feature_abort_reason msg \<noteq> CEC_OP_ABORT_UNRECOGNIZED_OP c then (FAIL c, node1)
         else if feature_abort_msg msg \<noteq> 0xfe then (FAIL c, node1)
         else
           let ((ok2, msg2), node2) =
                 transmit_timeout B (Opcode_only me (CEC_LOG_ADDR_BROADCAST c) unknown_opcode)
                   None node1
           in if \<not> ok2 then (FAIL c, node2)
              else if \<not> timed_out msg2 then (FAIL c, node2)
              else (0, node2))"

section \<open>timer\_errors\<close>

text \<open>
  C's \<^verbatim>\<open>%\<close> truncates towards zero; the remainder has the sign of the dividend.
\<close>

definition c_rem :: "int \<Rightarrow> int \<Rightarrow> int" where
  "c_rem a b = sgn a * (\<bar>a\<bar> mod \<bar>b\<bar>)"

text \<open>
  Lines 1842 to 1849: the day of February that \<^verbatim>\<open>timer_errors\<close> sends as an
  invalid day, from the \<^verbatim>\<open>struct tm\<close> of the current time.
\<close>

definition february_error_day :: "tm \<Rightarrow> 8 word" where
  "february_error_day t0 =
     (let t = (if tm_mon t0 + 1 > Feb then t0\<lparr>tm_year := tm_year t0 + 1\<rparr> else t0)
      in if c_rem (tm_year t) 4 = 0 \<and> (c_rem (tm_year t) 100 \<noteq> 0 \<or> c_rem (tm_year t) 400 = 0)
         then 30 else 29)"

text \<open>
  The transmission of lines 1823 to 1830: a timer that must be accepted without error.
\<close>

definition set_timer_accepted ::
  "cec_consts \<Rightarrow> 'x bus \<Rightarrow> nat \<Rightarrow> nat \<Rightarrow> timer \<Rightarrow> 'x node_scheme \<Rightarrow> int \<times> 'x node_scheme" where
  "set_timer_accepted c B me la T node =
     (let ((ok, msg), node1) =
            transmit_timeout B (Set_analogue_timer me la T (bcast_sys (remote node la)))
              (Some 10000) node
      in if \<not> ok then (FAIL c, node1)
         else if timed_out_or_abort msg then (FAIL c, node1)
         else if timer_has_error msg then (FAIL c, node1)
         else (0, node1))"

text \<open>
  Lines 1792 to 1852. \<^verbatim>\<open>localtime\<close> returns a pointer to a buffer of its own;
  the model reads the fields when it returns, as nothing in the file writes the buffer
  before the source reads them.
\<close>

definition timer_errors ::
  "cec_consts \<Rightarrow> 'x bus \<Rightarrow> 'x node_scheme \<Rightarrow> nat \<Rightarrow> nat \<Rightarrow> bool \<Rightarrow> int \<times> 'x node_scheme" where
  "timer_errors c B node me la interactive =
     (let once = CEC_OP_REC_SEQ_ONCE_ONLY c
      in fail_on_tests c
           [send_timer_error c B me la 31 (word_of_int Nov) 6 0 1 0 once,
            send_timer_error c B me la 32 (word_of_int Dec) 6 0 1 0 once,
            send_timer_error c B me la 0 (word_of_int Jan) 6 0 1 0 once,
            send_timer_error c B me la 5 0 6 0 1 0 once,
            send_timer_error c B me la 5 13 6 0 1 0 once,
            send_timer_error c B me la 5 (word_of_int Aug) 24 0 1 0 once,
            send_timer_error c B me la 5 (word_of_int Aug) 0 60 1 0 once,
            send_timer_error c B me la 5 (word_of_int Aug) 6 0 0 0 once]
           (\<lambda>node1.
              let t = localtime B (current_time node1 + 2 * 60 * 60);
                  d = word_of_int (tm_mday t); m = word_of_int (tm_mon t + 1);
                  hr = word_of_int (tm_hour t); mi = word_of_int (tm_min t)
              in fail_on_tests c
                   [set_timer_accepted c B me la (mk_timer d m hr mi 1 0 once),
                    send_timer_error c B me la d m hr mi 1 0 once,
                    clear_timer c B me la d m hr mi 1 0 once,
                    send_timer_error c B me la 5 (word_of_int Aug) 6 0 1 0 0xff]
                   (\<lambda>node2.
                      let feb = february_error_day (localtime B (current_time node2))
                      in fail_on_tests c
                           [send_timer_error c B me la feb (word_of_int Feb) 6 0 1 0 once]
                           (\<lambda>node3. (OK c, node3)) node2)
                   node1)
           node)"

section \<open>timer\_overlap\_warning\<close>

text \<open>
  The two blocks of lines 1875 to 1883 and 1886 to 1894: a timer that must be accepted
  without error and without the overlap warning.
\<close>

definition set_timer_no_overlap ::
  "cec_consts \<Rightarrow> 'x bus \<Rightarrow> nat \<Rightarrow> nat \<Rightarrow> timer \<Rightarrow> 'x node_scheme \<Rightarrow> int \<times> 'x node_scheme" where
  "set_timer_no_overlap c B me la T node =
     (let ((ok, msg), node1) =
            transmit_timeout B (Set_analogue_timer me la T (bcast_sys (remote node la)))
              (Some 10000) node
      in if \<not> ok then (FAIL c, node1)
         else if timed_out_or_abort msg then (FAIL c, node1)
         else if timer_has_error msg then (FAIL c, node1)
         else if timer_overlap_warning_is_set msg then (FAIL c, node1)
         else (0, node1))"

text \<open>
  Lines 1854 to 1925. \<^verbatim>\<open>localtime\<close> is called once, before the first message;
  the fields it returned are taken to stay as they are while the source reads them.
\<close>

definition timer_overlap_warning ::
  "cec_consts \<Rightarrow> 'x bus \<Rightarrow> 'x node_scheme \<Rightarrow> nat \<Rightarrow> nat \<Rightarrow> bool \<Rightarrow> int \<times> 'x node_scheme" where
  "timer_overlap_warning c B node me la interactive =
     (let once = CEC_OP_REC_SEQ_ONCE_ONLY c;
          t = localtime B (current_time node + 24 * 60 * 60);
          d = word_of_int (tm_mday t); m = word_of_int (tm_mon t + 1);
          ((ok, msg), node1) =
            transmit_timeout B
              (Set_analogue_timer me la (mk_timer d m 8 0 2 0 once) (bcast_sys (remote node la)))
              (Some 10000) node
      in if \<not> ok then (FAIL c, node1)
         else if msg_unrecognized_op msg then (OK_NOT_SUPPORTED c, node1)
         else if timed_out_or_abort msg then (FAIL c, node1)
         else if timer_has_error msg then (FAIL c, node1)
         else if timer_overlap_warning_is_set msg then (FAIL c, node1)
         else
           fail_on_tests c
             [set_timer_no_overlap c B me la (mk_timer d m 10 0 0 15 once),
              set_timer_no_overlap c B me la (mk_timer d m 7 45 0 15 once),
              send_timer_overlap c B me la d m 9 0 2 0 0x1,
              send_timer_overlap c B me la d m 7 0 1 30 0x1,
              send_timer_overlap c B me la d m 8 0 0 30 0x1,
              send_timer_overlap c B me la d m 9 30 0 30 0x1,
              send_timer_overlap c B me la d m 6 0 6 0 0x1,
              clear_timer c B me la d m 8 0 2 0 once,
              clear_timer c B me la d m 10 0 0 15 once,
              clear_timer c B me la d m 7 45 0 15 once,
              clear_timer c B me la d m 9 0 2 0 0x1,
              clear_timer c B me la d m 7 0 1 30 0x1,
              clear_timer c B me la d m 8 0 0 30 0x1,
              clear_timer c B me la d m 9 30 0 30 0x1,
              clear_timer c B me la d m 6 0 6 0 0x1]
             (\<lambda>node2. (OK c, node2)) node1)"

section \<open>Vocabulary of the properties\<close>

text \<open>
  The subtests that the two loops of \<^verbatim>\<open>testRemote\<close> go through: those of the groups
  that pass the test of line 2253, in the order of the catalogue.
\<close>

definition selected_subtests :: "'f remote_test list \<Rightarrow> 32 word \<Rightarrow> 'f remote_subtest list" where
  "selected_subtests tests test_tags =
     concat (map subtests (filter (\<lambda>test. tags test AND test_tags = tags test) tests))"

text \<open>
  The selection as the specification words it: the groups whose tags intersect the
  selected tags, and of these the subtests whose applicability mask has the bit of the
  remote's logical address.
\<close>

definition spec_selected :: "'f remote_test list \<Rightarrow> 32 word \<Rightarrow> nat \<Rightarrow> 'f remote_subtest list" where
  "spec_selected tests test_tags la =
     filter (\<lambda>subtest. la_mask subtest AND push_bit la 1 \<noteq> 0)
       (concat (map subtests (filter (\<lambda>test. tags test AND test_tags \<noteq> 0) tests)))"

fun is_ran :: "'f event \<Rightarrow> bool" where
  "is_ran (Skipped s) = False"
| "is_ran (Ran s raw ret w rep) = True"

definition ran_subtests :: "'f event list \<Rightarrow> 'f remote_subtest list" where
  "ran_subtests evs = map ev_subtest (filter is_ran evs)"

text \<open>
  The shape of a log: no event but the last is critical, and the flag tells whether the
  last one is.
\<close>

definition log_shape :: "cec_consts \<Rightarrow> bool \<Rightarrow> 'f event list \<Rightarrow> bool" where
  "log_shape c stop evs =
     (if stop then evs \<noteq> [] \<and> is_critical c (last evs) \<and> (\<forall>e\<in>set (butlast evs). \<not> is_critical c e)
      else (\<forall>e\<in>set evs. \<not> is_critical c e))"

text \<open>The events that the body of the inner loop can produce, from any node.\<close>

definition step_events ::
  "cec_consts \<Rightarrow> ('f, 'x) dispatch \<Rightarrow> (string \<rightharpoonup> int) \<Rightarrow> (string \<rightharpoonup> bool)
     \<Rightarrow> nat \<Rightarrow> nat \<Rightarrow> bool \<Rightarrow> 'f event set" where
  "step_events c D mt mw me la ia =
     {e. \<exists>node. e = fst (testRemote_subtest c D mt mw me la ia (ev_subtest e) node)}"

text \<open>
  When a subtest that the loop reaches is left out: it is for CEC 2.0 and the remote's
  version is below 2.0 or the node has no CEC 2.0, or it is a standby subtest and the
  adapter has claimed no logical address. The applicability mask has no part in it.
\<close>

definition qualifier_unmet ::
  "cec_consts \<Rightarrow> ('f, 'x) dispatch \<Rightarrow> nat \<Rightarrow> 'x node_scheme \<Rightarrow> 'f remote_subtest \<Rightarrow> bool" where
  "qualifier_unmet c D la node s =
     (for_cec20 s \<and> (cec_version (remote node la) < CEC_OP_CEC_VERSION_2_0 c \<or> \<not> has_cec20 node)
      \<or> subtest_in_standby s \<and> log_addr_mask D node = 0)"

text \<open>
  A log that tells what was done from one state of the node to another. A skipped
  subtest is one whose qualifier is unmet in the state in which the loop reached it, and
  the state stays as it is. A subtest recorded as run is one whose qualifier is not unmet;
  its test function was called on that state, with \<^verbatim>\<open>in_standby\<close> set as the subtest
  says and after \<^verbatim>\<open>mode_set_initiator\<close>; the value recorded is the one the call
  returned, and the next subtest is reached in the state the call left.
\<close>

fun faithful_log ::
  "cec_consts \<Rightarrow> ('f, 'x) dispatch \<Rightarrow> nat \<Rightarrow> nat \<Rightarrow> bool \<Rightarrow> 'x node_scheme \<Rightarrow> 'f event list
     \<Rightarrow> 'x node_scheme \<Rightarrow> bool" where
  "faithful_log c D me la ia node [] node' = (node' = node)"
| "faithful_log c D me la ia node (Skipped s # es) node' =
     (qualifier_unmet c D la node s \<and> faithful_log c D me la ia node es node')"
| "faithful_log c D me la ia node (Ran s raw ret w rep # es) node' =
     (let result = call D (test_fn s) me la ia
                     (mode_set_initiator D (node\<lparr>in_standby := subtest_in_standby s\<rparr>))
      in \<not> qualifier_unmet c D la node s \<and> raw = fst result
         \<and> faithful_log c D me la ia (snd result) es node')"

text \<open>
  The subtests of the whole catalogue, and the condition that \<^verbatim>\<open>collectTests\<close>
  rejects: two of them with the same sanitized name and different test functions.
\<close>

definition all_subtests :: "'f remote_test list \<Rightarrow> 'f remote_subtest list" where
  "all_subtests tests = concat (map subtests tests)"

definition name_clash :: "(string \<Rightarrow> string) \<Rightarrow> 'f remote_subtest list \<Rightarrow> bool" where
  "name_clash sn xs =
     (\<exists>a\<in>set xs. \<exists>b\<in>set xs.
        sn (subtest_name a) = sn (subtest_name b) \<and> test_fn a \<noteq> test_fn b)"

text \<open>
  A timer as an interval of minutes within its day, the intersection test of the
  specification for two half-open intervals (\<open>startA < endB \<and> startB < endA\<close>), and
  intervals that only touch at an endpoint.
\<close>

definition timer_start :: "timer \<Rightarrow> nat" where
  "timer_start T = 60 * unat (start_hr T) + unat (start_min T)"

definition timer_end :: "timer \<Rightarrow> nat" where
  "timer_end T = timer_start T + 60 * unat (duration_hr T) + unat (duration_min T)"

definition intervals_overlap :: "timer \<Rightarrow> timer \<Rightarrow> bool" where
  "intervals_overlap A B =
     (day A = day B \<and> month A = month B \<and>
      timer_start A < timer_end B \<and> timer_start B < timer_end A)"

definition intervals_touch :: "timer \<Rightarrow> timer \<Rightarrow> bool" where
  "intervals_touch A B =
     (day A = day B \<and> month A = month B \<and>
      (timer_end A = timer_start B \<or> timer_end B = timer_start A))"

text \<open>The Gregorian rule, as the specification words it, on the calendar year.\<close>

definition gregorian_leap_year :: "int \<Rightarrow> bool" where
  "gregorian_leap_year y = (y mod 4 = 0 \<and> (y mod 100 \<noteq> 0 \<or> y mod 400 = 0))"

text \<open>
  The Set Analogue Timer exchanges of a log with their replies, whether a reply carries
  the overlap warning, the eight timers of \<^verbatim>\<open>timer_overlap_warning\<close> in the order it
  sends them, and whether a timer of a list overlaps one before it.
\<close>

fun set_timer_of :: "request \<times> bool \<times> reply \<Rightarrow> (timer \<times> reply) option" where
  "set_timer_of (Set_analogue_timer me la T b, ok, msg) = Some (T, msg)"
| "set_timer_of (Clear_analogue_timer me la T b, ok, msg) = None"
| "set_timer_of (Opcode_only me la op, ok, msg) = None"

definition set_timers :: "(request \<times> bool \<times> reply) list \<Rightarrow> (timer \<times> reply) list" where
  "set_timers log = List.map_filter set_timer_of log"

definition warned :: "timer \<times> reply \<Rightarrow> bool" where
  "warned x = (ts_overlap_warning (snd x) \<noteq> 0)"

definition overlap_timers :: "8 word \<Rightarrow> 8 word \<Rightarrow> 8 word \<Rightarrow> timer list" where
  "overlap_timers d m once =
     [mk_timer d m 8 0 2 0 once, mk_timer d m 10 0 0 15 once, mk_timer d m 7 45 0 15 once,
      mk_timer d m 9 0 2 0 0x1, mk_timer d m 7 0 1 30 0x1, mk_timer d m 8 0 0 30 0x1,
      mk_timer d m 9 30 0 30 0x1, mk_timer d m 6 0 6 0 0x1]"

definition overlaps_earlier :: "timer list \<Rightarrow> nat \<Rightarrow> bool" where
  "overlaps_earlier ts i = (\<exists>A\<in>set (take i ts). intervals_overlap A (ts ! i))"

text \<open>
  An exchange that sends a given timer, and one that sends no Set Analogue Timer message.
  A step that sends exactly one message, of the kind the first predicate tells, and
  returns 0 only if the exchange satisfies the second. An exchange that was transmitted,
  sets a given timer and carries the overlap warning or not.
\<close>

definition is_set_of :: "timer \<Rightarrow> request \<times> bool \<times> reply \<Rightarrow> bool" where
  "is_set_of T e = (\<exists>msg. set_timer_of e = Some (T, msg))"

definition is_clear :: "request \<times> bool \<times> reply \<Rightarrow> bool" where
  "is_clear e = (set_timer_of e = None)"

definition step_sends ::
  "('x node_scheme \<Rightarrow> int \<times> 'x node_scheme)
     \<Rightarrow> (request \<times> bool \<times> reply \<Rightarrow> bool) \<times> (request \<times> bool \<times> reply \<Rightarrow> bool) \<Rightarrow> bool" where
  "step_sends f RP =
     (\<forall>node r node1. f node = (r, node1) \<longrightarrow>
        (\<exists>e. bus_log node1 = bus_log node @ [e] \<and> fst RP e \<and> (r = 0 \<longrightarrow> snd RP e)))"

definition sent_set :: "nat \<Rightarrow> nat \<Rightarrow> timer \<Rightarrow> bool \<Rightarrow> request \<times> bool \<times> reply \<Rightarrow> bool" where
  "sent_set me la T w e =
     (\<exists>b msg. e = (Set_analogue_timer me la T b, True, msg) \<and> (ts_overlap_warning msg \<noteq> 0) = w)"

section \<open>Concrete inputs\<close>

text \<open>
  One assignment of the header's constants, a remote device and a node, for the places
  where a theorem is applied to a concrete input.
\<close>

definition sample_consts :: cec_consts where
  "sample_consts =
     \<lparr>OK = 0, FAIL = 1, OK_NOT_SUPPORTED = 3, OK_UNEXPECTED = 5, OK_EXPECTED_FAIL = 6,
      NOTAPPLICABLE = 7, FAIL_CRITICAL = 8, DONT_CARE = 255,
      CEC_OP_CEC_VERSION_2_0 = 6, CEC_OP_ABORT_UNRECOGNIZED_OP = 0, CEC_OP_ABORT_INVALID_OP = 3,
      CEC_LOG_ADDR_BROADCAST = 15, CEC_OP_REC_SEQ_ONCE_ONLY = 0,
      CEC_OP_TIMER_CLR_STAT_RECORDING = 0, CEC_OP_TIMER_CLR_STAT_NO_MATCHING = 1,
      CEC_OP_TIMER_CLR_STAT_NO_INFO = 2, CEC_OP_TIMER_CLR_STAT_CLEARED = 0x80\<rparr>"

definition sample_remote :: remote_device where
  "sample_remote =
     \<lparr>recognized_op = (\<lambda>i. i = 0x36), unrecognized_op = (\<lambda>i. i = 0xfe),
      cec_version = 5, bcast_sys = 0, remote_in_standby = False\<rparr>"

definition sample_node :: node where
  "sample_node =
     \<lparr>remote = (\<lambda>la. sample_remote), has_cec20 = False, in_standby = False,
      current_time = 946684800, warnings = 0, bus_log = []\<rparr>"

text \<open>The same node, after the remote at address 4 also answered opcode 0x36 with
  Feature Abort [Unrecognized Opcode].\<close>

definition inconsistent_node :: node where
  "inconsistent_node =
     sample_node\<lparr>remote := (remote sample_node)
       (4 := sample_remote\<lparr>unrecognized_op := (\<lambda>i. i = 0x36 \<or> i = 0xfe)\<rparr>)\<rparr>"

text \<open>A node with CEC 2.0 whose remotes report version 2.0.\<close>

definition cec20_node :: node where
  "cec20_node =
     sample_node\<lparr>remote := (\<lambda>la. sample_remote\<lparr>cec_version := 6\<rparr>), has_cec20 := True\<rparr>"

text \<open>
  A catalogue with four groups of \<^verbatim>\<open>tests[]\<close>, numbers for the addresses of the
  test functions, and tag bits 16, 1, 2, 4 and 8 for \<^verbatim>\<open>TAG_SYSTEM_INFORMATION\<close>, \<^verbatim>\<open>TAG_OSD_DISPLAY\<close>,
  \<^verbatim>\<open>TAG_DEVICE_MENU_CONTROL\<close>, \<^verbatim>\<open>TAG_POWER_STATUS\<close> and
  \<^verbatim>\<open>TAG_STANDBY_RESUME\<close>. \<^verbatim>\<open>standby_resume_subtests\<close> is defined outside the
  file; two entries stand for it. \<^verbatim>\<open>CEC_LOG_ADDR_MASK_TV\<close> is bit 0.
\<close>

definition isalnum :: "char \<Rightarrow> bool" where
  "isalnum ch =
     (let n = (of_char ch :: nat)
      in (48 \<le> n \<and> n \<le> 57) \<or> (65 \<le> n \<and> n \<le> 90) \<or> (97 \<le> n \<and> n \<le> 122))"

definition sample_safename :: "string \<Rightarrow> string" where
  "sample_safename s = map (\<lambda>ch. if isalnum ch then ch else CHR ''-'') s"

definition sample_subtest :: "string \<Rightarrow> 16 word \<Rightarrow> nat \<Rightarrow> nat remote_subtest" where
  "sample_subtest n m f =
     \<lparr>subtest_name = n, la_mask = m, test_fn = f, subtest_in_standby = False, for_cec20 = False\<rparr>"

definition osd_string_subtests :: "nat remote_subtest list" where
  "osd_string_subtests =
     [sample_subtest ''Set OSD String with default timeout'' 1 1,
      sample_subtest ''Set OSD String with no timeout'' 1 2,
      sample_subtest ''Set OSD String with invalid operand'' 1 3]"

definition dev_menu_ctl_subtests :: "nat remote_subtest list" where
  "dev_menu_ctl_subtests =
     [sample_subtest ''Menu Request'' 0xfffe 4,
      sample_subtest ''User Control Pressed'' 0xffff 5,
      sample_subtest ''User Control Released'' 0xffff 6]"

definition system_info_subtests :: "nat remote_subtest list" where
  "system_info_subtests =
     [sample_subtest ''Polling Message'' 0xffff 7,
      sample_subtest ''Give Physical Address'' 0xffff 8,
      sample_subtest ''Give CEC Version'' 0xffff 13,
      sample_subtest ''Get Menu Language'' 0xffff 14,
      sample_subtest ''Set Menu Language'' 0xffff 15,
      sample_subtest ''Give Device Features'' 0xffff 16]"

definition standby_resume_subtests :: "nat remote_subtest list" where
  "standby_resume_subtests =
     [sample_subtest ''Standby'' 0xffff 9,
      (sample_subtest ''Wake up'' 0xffff 10)\<lparr>for_cec20 := True\<rparr>]"

definition sample_tests :: "nat remote_test list" where
  "sample_tests =
     [\<lparr>test_name = ''System Information feature'', tags = 16, subtests = system_info_subtests\<rparr>,
      \<lparr>test_name = ''OSD String feature'', tags = 1, subtests = osd_string_subtests\<rparr>,
      \<lparr>test_name = ''Device Menu Control feature'', tags = 2, subtests = dev_menu_ctl_subtests\<rparr>,
      \<lparr>test_name = ''Standby/Resume and Power Status'', tags = 4 OR 8,
       subtests = standby_resume_subtests\<rparr>]"

text \<open>
  What the test functions return against one remote: the first OSD subtest is not
  supported, the second not applicable, Menu Request passes with a warning, and the remote
  at address 14 does not answer Give Physical Address.
\<close>

definition sample_call :: "nat \<Rightarrow> nat \<Rightarrow> nat \<Rightarrow> bool \<Rightarrow> node \<Rightarrow> int \<times> node" where
  "sample_call f me la interactive node =
     (if f = 1 then (3, node)
      else if f = 2 then (7, node)
      else if f = 4 then (0, node\<lparr>warnings := warnings node + 1\<rparr>)
      else if f = 8 \<and> la = 14 then (8, node)
      else (0, node))"

definition sample_dispatch :: "(nat, unit) dispatch" where
  "sample_dispatch =
     \<lparr>safename = sample_safename, call = sample_call, mode_set_initiator = (\<lambda>node. node),
      log_addr_mask = (\<lambda>node. 0x10),
      util_interactive_ensure_power_state = (\<lambda>me la interactive node. (True, node)),
      report_physical_addr = (\<lambda>me la node. node)\<rparr>"

text \<open>
  Expectations as two \<^verbatim>\<open>-e\<close> style options leave them after \<^verbatim>\<open>collectTests\<close>:
  outcome 0 for two subtests, without warnings for Menu Request.
\<close>

definition sample_mapTests :: "string \<rightharpoonup> int" where
  "sample_mapTests =
     (\<lambda>k. if k = ''Set-OSD-String-with-invalid-operand'' then Some 0
          else if k = ''Menu-Request'' then Some 0
          else Some 255)"

definition sample_mapTestsNoWarnings :: "string \<rightharpoonup> bool" where
  "sample_mapTestsNoWarnings = (\<lambda>k. Some (k = ''Menu-Request''))"

text \<open>
  Two more catalogues: the two groups of \<^verbatim>\<open>tests[]\<close> that share the User Control
  subtests, and a catalogue in which two names that sanitize to the same string are bound
  to different functions. \<open>sample_strtoul\<close> stands for \<^verbatim>\<open>strtoul\<close> with base 0
  and a 64-bit \<^verbatim>\<open>unsigned long\<close>, on a text that starts with a digit (so that there
  is no white space or sign to pass over): \<^verbatim>\<open>0x\<close> or \<^verbatim>\<open>0X\<close> before a hexadecimal
  digit announces base 16, another leading \<^verbatim>\<open>0\<close> base 8, anything else base 10; the
  digits of that base are read as far as they go, and a value out of range gives
  \<^verbatim>\<open>ULONG_MAX\<close>.
\<close>

definition rc_passthrough_subtests :: "nat remote_subtest list" where
  "rc_passthrough_subtests =
     [sample_subtest ''User Control Pressed'' 0xffff 5,
      sample_subtest ''User Control Released'' 0xffff 6]"

definition passthrough_tests :: "nat remote_test list" where
  "passthrough_tests =
     [\<lparr>test_name = ''Remote Control Passthrough feature'', tags = 32,
       subtests = rc_passthrough_subtests\<rparr>,
      \<lparr>test_name = ''Device Menu Control feature'', tags = 2, subtests = dev_menu_ctl_subtests\<rparr>]"

definition clashing_tests :: "nat remote_test list" where
  "clashing_tests =
     [\<lparr>test_name = ''Core'', tags = 64,
       subtests = [sample_subtest ''Feature aborts unknown messages'' 0xffff 11]\<rparr>,
      \<lparr>test_name = ''Device Menu Control feature'', tags = 2, subtests = dev_menu_ctl_subtests\<rparr>,
      \<lparr>test_name = ''Standby'', tags = 8,
       subtests = [sample_subtest ''Feature aborts-unknown messages'' 0xffff 12]\<rparr>]"

definition digit_value :: "char \<Rightarrow> nat" where
  "digit_value ch =
     (let n = (of_char ch :: nat)
      in if 48 \<le> n \<and> n \<le> 57 then n - 48
         else if 97 \<le> n \<and> n \<le> 122 then n - 87
         else if 65 \<le> n \<and> n \<le> 90 then n - 55
         else 36)"

definition read_digits :: "nat \<Rightarrow> string \<Rightarrow> nat" where
  "read_digits base s =
     foldl (\<lambda>n ch. base * n + digit_value ch) 0 (takeWhile (\<lambda>ch. digit_value ch < base) s)"

definition sample_strtoul :: "string \<Rightarrow> nat" where
  "sample_strtoul s =
     min (2 ^ 64 - 1)
       (if take 1 s = ''0'' \<and> (take 1 (drop 1 s) = ''x'' \<or> take 1 (drop 1 s) = ''X'')
           \<and> drop 2 s \<noteq> [] \<and> digit_value (hd (drop 2 s)) < 16
          then read_digits 16 (drop 2 s)
        else if take 1 s = ''0'' then read_digits 8 s
        else read_digits 10 s)"

text \<open>
  A bus that answers the \<open>n\<close>-th message with the \<open>n\<close>-th reply of a script and
  accepts every transmission. Its \<^verbatim>\<open>fail_or_warn\<close> is the macro as lines 271 and 272
  use it: a warning and 0 when the node is in standby, \<^verbatim>\<open>FAIL\<close> otherwise. Its
  \<^verbatim>\<open>localtime\<close> is UTC within January 2000. The scripts: a remote that does not
  answer; one that aborts opcode 0xfe as unrecognized and ignores the broadcast; one that
  sets the overlap warning as \<^verbatim>\<open>timer_overlap_warning\<close> expects; and one that
  answers \<^verbatim>\<open>timer_errors\<close> as a recorder with a correct calendar does on
  1 January 2000, accepting the last timer, for 29 February 2000.
\<close>

definition ack :: reply where
  "ack = \<lparr>timed_out = False, status_is_abort = False, timed_out_or_abort = False,
          msg_unrecognized_op = False, abort_reason = 0, feature_abort_msg = 0,
          feature_abort_reason = 0, ts_overlap_warning = 0, ts_media_info = 0,
          ts_prog_info = 0, ts_prog_error = 0, ts_duration_hr = 0, ts_duration_min = 0,
          timer_cleared_status = 0\<rparr>"

definition utc_2000 :: "int \<Rightarrow> tm" where
  "utc_2000 t =
     \<lparr>tm_min = (t mod 3600) div 60, tm_hour = (t mod 86400) div 3600,
      tm_mday = 1 + (t - 946684800) div 86400, tm_mon = 0, tm_year = 100\<rparr>"

definition scripted_bus :: "reply list \<Rightarrow> unit bus" where
  "scripted_bus replies =
     \<lparr>bus_transmit = (\<lambda>req tmo node. ((True, replies ! length (bus_log node)), node)),
      fail_or_warn = (\<lambda>node. if in_standby node
                        then (0, node\<lparr>warnings := warnings node + 1\<rparr>)
                        else (FAIL sample_consts, node)),
      localtime = utc_2000\<rparr>"

definition no_reply :: reply where
  "no_reply = ack\<lparr>timed_out := True, timed_out_or_abort := True\<rparr>"

definition unknown_abort :: reply where
  "unknown_abort =
     ack\<lparr>status_is_abort := True, timed_out_or_abort := True, msg_unrecognized_op := True,
         feature_abort_msg := 0xfe\<rparr>"

definition overlap_script :: "reply list" where
  "overlap_script =
     [ack, ack, ack,
      ack\<lparr>ts_overlap_warning := 1\<rparr>, ack\<lparr>ts_overlap_warning := 1\<rparr>,
      ack\<lparr>ts_overlap_warning := 1\<rparr>, ack\<lparr>ts_overlap_warning := 1\<rparr>,
      ack\<lparr>ts_overlap_warning := 1\<rparr>,
      ack\<lparr>timer_cleared_status := 0x80\<rparr>, ack\<lparr>timer_cleared_status := 0x80\<rparr>,
      ack\<lparr>timer_cleared_status := 0x80\<rparr>, ack\<lparr>timer_cleared_status := 0x80\<rparr>,
      ack\<lparr>timer_cleared_status := 0x80\<rparr>, ack\<lparr>timer_cleared_status := 0x80\<rparr>,
      ack\<lparr>timer_cleared_status := 0x80\<rparr>, ack\<lparr>timer_cleared_status := 0x80\<rparr>]"

definition errors_script :: "reply list" where
  "errors_script =
     [ack\<lparr>ts_prog_error := 7\<rparr>, ack\<lparr>ts_prog_error := 7\<rparr>, ack\<lparr>ts_prog_error := 7\<rparr>,
      ack\<lparr>ts_prog_error := 7\<rparr>, ack\<lparr>ts_prog_error := 7\<rparr>, ack\<lparr>ts_prog_error := 7\<rparr>,
      ack\<lparr>ts_prog_error := 7\<rparr>, ack\<lparr>ts_prog_error := 7\<rparr>,
      ack\<lparr>ts_prog_info := 8\<rparr>, ack\<lparr>ts_prog_error := 14\<rparr>,
      ack\<lparr>timer_cleared_status := 0x80\<rparr>, ack\<lparr>ts_prog_error := 7\<rparr>,
      ack\<lparr>ts_prog_info := 8\<rparr>]"

chapter \<open>Properties\<close>

section \<open>Post-test check\<close>

lemma check_recognized_fold:
  "fold (check_recognized_step r) xs b
     = (b \<or> (\<exists>i\<in>set xs. recognized_op r i \<and> unrecognized_op r i))"
  by (induction xs arbitrary: b) (auto simp: check_recognized_step_def)

text \<open>
  C1. Provided \<^verbatim>\<open>FAIL\<close> is not the passing value 0, the post-run check returns
  \<^verbatim>\<open>FAIL\<close> exactly when some opcode in 0..255 is marked both recognized and
  unrecognized for the remote, and returns 0 exactly when no opcode is marked both ways.
\<close>

theorem post_test_check_recognized_iff:
  assumes "FAIL c \<noteq> 0"
  shows "(post_test_check_recognized c node me la interactive = FAIL c
            \<longleftrightarrow> (\<exists>i<256. recognized_op (remote node la) i \<and> unrecognized_op (remote node la) i))
       \<and> (post_test_check_recognized c node me la interactive = 0
            \<longleftrightarrow> (\<forall>i<256. \<not> (recognized_op (remote node la) i \<and> unrecognized_op (remote node la) i)))"
  using assms
  by (auto simp: post_test_check_recognized_def check_recognized_fold Let_def)

theorem post_test_check_recognized_witness:
  "FAIL sample_consts \<noteq> 0
   \<and> post_test_check_recognized sample_consts inconsistent_node 1 4 False = FAIL sample_consts
   \<and> post_test_check_recognized sample_consts inconsistent_node 1 5 False = 0"
proof -
  have nz: "FAIL sample_consts \<noteq> 0" by (simp add: sample_consts_def)
  have both: "\<exists>i<256. recognized_op (remote inconsistent_node 4) i
                \<and> unrecognized_op (remote inconsistent_node 4) i"
    by (rule exI [of _ "0x36"]) (simp add: inconsistent_node_def sample_node_def sample_remote_def)
  have none: "\<forall>i<256. \<not> (recognized_op (remote inconsistent_node 5) i
                \<and> unrecognized_op (remote inconsistent_node 5) i)"
    by (simp add: inconsistent_node_def sample_node_def sample_remote_def)
  from post_test_check_recognized_iff [OF nz, of inconsistent_node 1 4 False] both
       post_test_check_recognized_iff [OF nz, of inconsistent_node 1 5 False] none nz
  show ?thesis by blast
qed

section \<open>The dispatcher\<close>

lemmas sample_defs =
  sample_consts_def sample_dispatch_def sample_mapTests_def sample_mapTestsNoWarnings_def
  sample_tests_def sample_node_def sample_remote_def sample_call_def sample_safename_def
  sample_subtest_def osd_string_subtests_def dev_menu_ctl_subtests_def system_info_subtests_def
  standby_resume_subtests_def isalnum_def

lemma sample_run_playback:
  "testRemote sample_consts sample_dispatch sample_mapTests sample_mapTestsNoWarnings
     sample_tests sample_node 1 4 3 False =
   (Return_end,
    [Ran (sample_subtest ''Set OSD String with default timeout'' 1 1) 3 3 False (Some (Plain 3)),
     Ran (sample_subtest ''Set OSD String with no timeout'' 1 2) 7 7 False None,
     Ran (sample_subtest ''Set OSD String with invalid operand'' 1 3) 0 5 False
       (Some (Expected_got 1 0 5)),
     Ran (sample_subtest ''Menu Request'' 0xfffe 4) 0 0 True (Some (Expected_no_warnings 1 1)),
     Ran (sample_subtest ''User Control Pressed'' 0xffff 5) 0 0 False (Some (Plain 0)),
     Ran (sample_subtest ''User Control Released'' 0xffff 6) 0 0 False (Some (Plain 0))],
    sample_node\<lparr>warnings := 1\<rparr>)"
  by (simp add: testRemote_def testRemote_subtest_def report_line_def mapTests_at_def
      mapTestsNoWarnings_at_def Let_def sample_defs)

lemma sample_run_critical:
  "testRemote sample_consts sample_dispatch sample_mapTests sample_mapTestsNoWarnings
     sample_tests sample_node 1 14 19 False =
   (Return_critical,
    [Ran (sample_subtest ''Polling Message'' 0xffff 7) 0 0 False (Some (Plain 0)),
     Ran (sample_subtest ''Give Physical Address'' 0xffff 8) 8 8 False (Some (Plain 8))],
    sample_node)"
  by (simp add: testRemote_def testRemote_subtest_def report_line_def mapTests_at_def
      mapTestsNoWarnings_at_def Let_def sample_defs)

lemma sample_run_tv:
  "testRemote sample_consts sample_dispatch sample_mapTests sample_mapTestsNoWarnings
     sample_tests sample_node 1 0 6 False =
   (Return_end,
    [Ran (sample_subtest ''Menu Request'' 0xfffe 4) 0 5 True (Some (Expected_got 1 0 5)),
     Ran (sample_subtest ''User Control Pressed'' 0xffff 5) 0 0 False (Some (Plain 0)),
     Ran (sample_subtest ''User Control Released'' 0xffff 6) 0 0 False (Some (Plain 0))],
    sample_node\<lparr>warnings := 1\<rparr>)"
  by (simp add: testRemote_def testRemote_subtest_def report_line_def mapTests_at_def
      mapTestsNoWarnings_at_def Let_def sample_defs)

lemma sample_run_standby:
  "testRemote sample_consts sample_dispatch sample_mapTests sample_mapTestsNoWarnings
     sample_tests sample_node 1 4 12 False =
   (Return_end,
    [Ran (sample_subtest ''Standby'' 0xffff 9) 0 0 False (Some (Plain 0)),
     Skipped ((sample_subtest ''Wake up'' 0xffff 10)\<lparr>for_cec20 := True\<rparr>)],
    sample_node)"
  by (simp add: testRemote_def testRemote_subtest_def report_line_def mapTests_at_def
      mapTestsNoWarnings_at_def Let_def sample_defs)


lemma sample_run_cec20:
  "testRemote sample_consts sample_dispatch sample_mapTests sample_mapTestsNoWarnings
     sample_tests cec20_node 1 4 12 False =
   (Return_end,
    [Ran (sample_subtest ''Standby'' 0xffff 9) 0 0 False (Some (Plain 0)),
     Ran ((sample_subtest ''Wake up'' 0xffff 10)\<lparr>for_cec20 := True\<rparr>) 0 0 False (Some (Plain 0))],
    cec20_node)"
  by (simp add: testRemote_def testRemote_subtest_def report_line_def mapTests_at_def
      mapTestsNoWarnings_at_def Let_def sample_defs cec20_node_def)

lemma log_shape_Cons:
  "\<not> is_critical c e \<Longrightarrow> log_shape c stop (e # evs) = log_shape c stop evs"
  by (cases evs) (auto simp: log_shape_def)

lemma log_shape_append:
  "\<forall>e\<in>set evs1. \<not> is_critical c e \<Longrightarrow> log_shape c stop (evs1 @ evs2) = log_shape c stop evs2"
  by (induction evs1) (simp_all add: log_shape_Cons)

lemma ev_subtest_step:
  "ev_subtest (fst (testRemote_subtest c D mt mw me la ia st node)) = st"
  by (simp add: testRemote_subtest_def Let_def split: prod.splits)

lemma subtests_events:
  "testRemote_subtests c D mt mw me la ia sts node = (stop, evs, node') \<Longrightarrow>
     prefix (map ev_subtest evs) sts \<and> log_shape c stop evs \<and>
     (\<not> stop \<longrightarrow> map ev_subtest evs = sts) \<and> set evs \<subseteq> step_events c D mt mw me la ia"
proof (induction sts arbitrary: node stop evs node')
  case Nil
  then show ?case by (simp add: log_shape_def)
next
  case (Cons st sts)
  obtain ev node1 where step: "testRemote_subtest c D mt mw me la ia st node = (ev, node1)"
    by (cases "testRemote_subtest c D mt mw me la ia st node")
  have sub: "ev_subtest ev = st"
    using ev_subtest_step [of c D mt mw me la ia st node] step by simp
  have orig: "ev \<in> step_events c D mt mw me la ia"
    unfolding step_events_def using step sub by (auto intro: exI [of _ node])
  show ?case
  proof (cases "is_critical c ev")
    case True
    with Cons.prems step have "stop" "evs = [ev]" by simp_all
    with True sub orig show ?thesis by (simp add: log_shape_def)
  next
    case False
    obtain stop1 evs1 node2 where
      rest: "testRemote_subtests c D mt mw me la ia sts node1 = (stop1, evs1, node2)"
      by (cases "testRemote_subtests c D mt mw me la ia sts node1")
    from Cons.prems step False rest
    have eq: "stop = stop1" "evs = ev # evs1" by simp_all
    from Cons.IH [OF rest] sub False eq orig show ?thesis
      by (simp add: log_shape_Cons)
  qed
qed

lemma tests_events:
  "testRemote_tests c D mt mw tt me la ia tests node = (stop, evs, node') \<Longrightarrow>
     prefix (map ev_subtest evs) (selected_subtests tests tt) \<and> log_shape c stop evs \<and>
     (\<not> stop \<longrightarrow> map ev_subtest evs = selected_subtests tests tt) \<and>
     set evs \<subseteq> step_events c D mt mw me la ia"
proof (induction tests arbitrary: node stop evs node')
  case Nil
  then show ?case by (simp add: selected_subtests_def log_shape_def)
next
  case (Cons t ts)
  show ?case
  proof (cases "tags t AND tt = tags t")
    case False
    with Cons.prems
    have "testRemote_tests c D mt mw tt me la ia ts node = (stop, evs, node')" by simp
    from Cons.IH [OF this] False show ?thesis by (simp add: selected_subtests_def)
  next
    case True
    obtain stop1 evs1 node1 where
      inner: "testRemote_subtests c D mt mw me la ia (subtests t) node = (stop1, evs1, node1)"
      by (cases "testRemote_subtests c D mt mw me la ia (subtests t) node")
    note I = subtests_events [OF inner]
    have sel: "selected_subtests (t # ts) tt = subtests t @ selected_subtests ts tt"
      using True by (simp add: selected_subtests_def)
    show ?thesis
    proof (cases stop1)
      case stop1: True
      with Cons.prems inner True
      have "stop = True" "evs = evs1" by simp_all
      moreover from I have "prefix (map ev_subtest evs1) (subtests t @ selected_subtests ts tt)"
        by (simp add: prefix_prefix)
      ultimately show ?thesis using I stop1 sel by simp
    next
      case False
      obtain stop2 evs2 node2 where
        rest: "testRemote_tests c D mt mw tt me la ia ts node1 = (stop2, evs2, node2)"
        by (cases "testRemote_tests c D mt mw tt me la ia ts node1")
      from Cons.prems inner False rest True
      have eq: "stop = stop2" "evs = evs1 @ evs2" by simp_all
      note R = Cons.IH [OF rest]
      from I False have all1: "map ev_subtest evs1 = subtests t" "\<forall>e\<in>set evs1. \<not> is_critical c e"
        "set evs1 \<subseteq> step_events c D mt mw me la ia"
        by (simp_all add: log_shape_def)
      from R all1 eq sel show ?thesis
        by (simp add: log_shape_append)
    qed
  qed
qed

lemma testRemote_events:
  assumes "testRemote c D mt mw tests node me la tt ia = (how, evs, node')"
  shows "prefix (map ev_subtest evs) (selected_subtests tests tt)"
    and "log_shape c (how = Return_critical) evs"
    and "how = Return_end \<Longrightarrow> map ev_subtest evs = selected_subtests tests tt"
    and "how = Return_power_state \<or> how = Return_standby \<Longrightarrow> evs = []"
    and "set evs \<subseteq> step_events c D mt mw me la ia"
proof -
  obtain powered node1 where
    pw: "util_interactive_ensure_power_state D me la ia node = (powered, node1)"
    by (cases "util_interactive_ensure_power_state D me la ia node")
  obtain stop evs1 node3 where
    tests_run: "testRemote_tests c D mt mw tt me la ia tests (report_physical_addr D me la node1)
             = (stop, evs1, node3)"
    by (cases "testRemote_tests c D mt mw tt me la ia tests (report_physical_addr D me la node1)")
  note L = tests_events [OF tests_run]
  consider (early) "how = Return_power_state \<or> how = Return_standby" "evs = []"
    | (loop) "how = (if stop then Return_critical else Return_end)" "evs = evs1"
  proof -
    have "testRemote c D mt mw tests node me la tt ia =
            (if \<not> powered then (Return_power_state, [], node1)
             else if remote_in_standby (remote node1 la) \<and> \<not> ia then (Return_standby, [], node1)
             else (if stop then Return_critical else Return_end, evs1, node3))"
      by (simp add: testRemote_def Let_def pw tests_run)
    with assms that show ?thesis by (simp split: if_splits)
  qed
  then have all: "prefix (map ev_subtest evs) (selected_subtests tests tt)
      \<and> log_shape c (how = Return_critical) evs
      \<and> (how = Return_end \<longrightarrow> map ev_subtest evs = selected_subtests tests tt)
      \<and> (how = Return_power_state \<or> how = Return_standby \<longrightarrow> evs = [])
      \<and> set evs \<subseteq> step_events c D mt mw me la ia"
  proof cases
    case early
    then show ?thesis by (auto simp: log_shape_def)
  next
    case loop
    with L show ?thesis by (cases stop) simp_all
  qed
  from all show "prefix (map ev_subtest evs) (selected_subtests tests tt)" by simp
  from all show "log_shape c (how = Return_critical) evs" by simp
  from all show "how = Return_end \<Longrightarrow> map ev_subtest evs = selected_subtests tests tt" by simp
  from all show "how = Return_power_state \<or> how = Return_standby \<Longrightarrow> evs = []" by simp
  from all show "set evs \<subseteq> step_events c D mt mw me la ia" by simp
qed

lemma step_event_Ran:
  assumes "Ran s raw ret w rep \<in> step_events c D mt mw me la ia"
  shows "ret = (if la_mask s AND push_bit la 1 = 0 \<and> raw = 0 then OK_UNEXPECTED c else raw)"
    and "\<exists>n. rep = report_line c D mt mw (subtest_name s) ret w n"
  using assms
  by (auto simp: step_events_def testRemote_subtest_def Let_def split: if_splits prod.splits)

text \<open>
  C2. In the log of one call of \<^verbatim>\<open>testRemote\<close> no event but the last has the
  recorded outcome \<^verbatim>\<open>FAIL_CRITICAL\<close>; the function leaves through the
  \<^verbatim>\<open>return\<close> of line 2295 exactly when the last event has it; and when the loops
  were entered and no recorded outcome is \<^verbatim>\<open>FAIL_CRITICAL\<close>, the loops went through
  every subtest of the selected groups.
\<close>

theorem testRemote_critical_stops:
  assumes "testRemote c D mt mw tests node me la tt ia = (how, evs, node')"
  shows "(\<forall>e\<in>set (butlast evs). \<not> is_critical c e)
       \<and> (how = Return_critical \<longleftrightarrow> evs \<noteq> [] \<and> is_critical c (last evs))
       \<and> ((how = Return_critical \<or> how = Return_end) \<and> (\<forall>e\<in>set evs. \<not> is_critical c e)
            \<longrightarrow> map ev_subtest evs = selected_subtests tests tt)"
proof -
  note E = testRemote_events [OF assms]
  have a: "\<forall>e\<in>set (butlast evs). \<not> is_critical c e"
    using E(2) by (auto simp: log_shape_def split: if_splits dest: in_set_butlastD)
  have b: "how = Return_critical \<longleftrightarrow> evs \<noteq> [] \<and> is_critical c (last evs)"
    using E(2) by (cases "evs = []") (auto simp: log_shape_def split: if_splits)
  have c: "(how = Return_critical \<or> how = Return_end) \<and> (\<forall>e\<in>set evs. \<not> is_critical c e)
            \<longrightarrow> map ev_subtest evs = selected_subtests tests tt"
    using E(3) b by auto
  from a b c show ?thesis by blast
qed

theorem testRemote_critical_stops_witness:
  "fst (testRemote sample_consts sample_dispatch sample_mapTests sample_mapTestsNoWarnings
          sample_tests sample_node 1 14 19 False) = Return_critical
   \<and> is_critical sample_consts
         (last (fst (snd (testRemote sample_consts sample_dispatch sample_mapTests
                            sample_mapTestsNoWarnings sample_tests sample_node 1 14 19 False))))
   \<and> \<not> is_critical sample_consts
         (hd (fst (snd (testRemote sample_consts sample_dispatch sample_mapTests
                          sample_mapTestsNoWarnings sample_tests sample_node 1 14 19 False))))
   \<and> map ev_subtest
         (fst (snd (testRemote sample_consts sample_dispatch sample_mapTests
                      sample_mapTestsNoWarnings sample_tests sample_node 1 4 3 False)))
       = selected_subtests sample_tests 3"
  using testRemote_critical_stops [OF sample_run_critical]
    testRemote_critical_stops [OF sample_run_playback]
  unfolding sample_run_critical sample_run_playback
  by (simp add: sample_consts_def)

lemma faithful_log_append:
  "faithful_log c D me la ia node es1 node1 \<Longrightarrow> faithful_log c D me la ia node1 es2 node'
     \<Longrightarrow> faithful_log c D me la ia node (es1 @ es2) node'"
proof (induction es1 arbitrary: node)
  case Nil
  then show ?case by simp
next
  case (Cons e es1)
  then show ?case by (cases e) (simp_all add: Let_def)
qed

lemma faithful_log_step:
  "testRemote_subtest c D mt mw me la ia st node = (ev, node1)
     \<Longrightarrow> faithful_log c D me la ia node [ev] node1"
  by (auto simp: testRemote_subtest_def qualifier_unmet_def Let_def
      split: if_splits prod.splits)

lemma subtests_faithful:
  "testRemote_subtests c D mt mw me la ia sts node = (stop, evs, node')
     \<Longrightarrow> faithful_log c D me la ia node evs node'"
proof (induction sts arbitrary: node stop evs node')
  case Nil
  then show ?case by simp
next
  case (Cons st sts)
  obtain ev node1 where step: "testRemote_subtest c D mt mw me la ia st node = (ev, node1)"
    by (cases "testRemote_subtest c D mt mw me la ia st node")
  note S = faithful_log_step [OF step]
  show ?case
  proof (cases "is_critical c ev")
    case True
    with Cons.prems step have "evs = [ev]" "node' = node1" by simp_all
    with S show ?thesis by simp
  next
    case False
    obtain stop1 evs1 node2 where
      rest: "testRemote_subtests c D mt mw me la ia sts node1 = (stop1, evs1, node2)"
      by (cases "testRemote_subtests c D mt mw me la ia sts node1")
    from Cons.prems step False rest
    have eq: "evs = [ev] @ evs1" "node' = node2" by simp_all
    from faithful_log_append [OF S Cons.IH [OF rest]] eq show ?thesis by simp
  qed
qed

lemma tests_faithful:
  "testRemote_tests c D mt mw tt me la ia tests node = (stop, evs, node')
     \<Longrightarrow> faithful_log c D me la ia node evs node'"
proof (induction tests arbitrary: node stop evs node')
  case Nil
  then show ?case by simp
next
  case (Cons t ts)
  show ?case
  proof (cases "tags t AND tt = tags t")
    case False
    with Cons.prems
    have "testRemote_tests c D mt mw tt me la ia ts node = (stop, evs, node')" by simp
    from Cons.IH [OF this] show ?thesis .
  next
    case True
    obtain stop1 evs1 node1 where
      inner: "testRemote_subtests c D mt mw me la ia (subtests t) node = (stop1, evs1, node1)"
      by (cases "testRemote_subtests c D mt mw me la ia (subtests t) node")
    note I = subtests_faithful [OF inner]
    show ?thesis
    proof (cases stop1)
      case stop1: True
      with Cons.prems inner True have "evs = evs1" "node' = node1" by simp_all
      with I show ?thesis by simp
    next
      case False
      obtain stop2 evs2 node2 where
        rest: "testRemote_tests c D mt mw tt me la ia ts node1 = (stop2, evs2, node2)"
        by (cases "testRemote_tests c D mt mw tt me la ia ts node1")
      from Cons.prems inner False rest True
      have eq: "evs = evs1 @ evs2" "node' = node2" by simp_all
      from faithful_log_append [OF I Cons.IH [OF rest]] eq show ?thesis by simp
    qed
  qed
qed

lemma testRemote_faithful:
  assumes "testRemote c D mt mw tests node me la tt ia = (how, evs, node')"
    and "how = Return_critical \<or> how = Return_end"
  shows "faithful_log c D me la ia
           (report_physical_addr D me la (snd (util_interactive_ensure_power_state D me la ia node)))
           evs node'"
proof -
  obtain powered node1 where
    pw: "util_interactive_ensure_power_state D me la ia node = (powered, node1)"
    by (cases "util_interactive_ensure_power_state D me la ia node")
  obtain stop evs1 node3 where
    tests_run: "testRemote_tests c D mt mw tt me la ia tests (report_physical_addr D me la node1)
             = (stop, evs1, node3)"
    by (cases "testRemote_tests c D mt mw tt me la ia tests (report_physical_addr D me la node1)")
  have "testRemote c D mt mw tests node me la tt ia =
          (if \<not> powered then (Return_power_state, [], node1)
           else if remote_in_standby (remote node1 la) \<and> \<not> ia then (Return_standby, [], node1)
           else (if stop then Return_critical else Return_end, evs1, node3))"
    by (simp add: testRemote_def Let_def pw tests_run)
  with assms have "evs = evs1" "node' = node3" by (auto split: if_splits)
  with tests_faithful [OF tests_run] pw show ?thesis by simp
qed

text \<open>
  C3, as the code has it. The subtests that one call of \<^verbatim>\<open>testRemote\<close> reaches are,
  in the order of the catalogue, an initial part of the subtests of those groups all of
  whose tags are selected (\<^verbatim>\<open>(test.tags & test_tags) == test.tags\<close>), and all of
  them when the function runs to its end; none is reached when the function returns
  before its loops. Once the loops are entered, from the state of the node after the
  Report Physical Address message to the state the function leaves: a subtest that is
  reached is skipped exactly when it is for CEC 2.0 and the remote's version is below 2.0
  or the node has no CEC 2.0, or it is a standby subtest and the adapter has claimed no
  logical address; every other subtest that is reached is run, that is, its test function
  is called on the state the previous subtests left and the value it returns is the one
  recorded. The applicability mask keeps no subtest from running.
\<close>

theorem testRemote_selection:
  assumes "testRemote c D mt mw tests node me la tt ia = (how, evs, node')"
  shows "prefix (map ev_subtest evs) (selected_subtests tests tt)
       \<and> (how = Return_end \<longrightarrow> map ev_subtest evs = selected_subtests tests tt)
       \<and> (how = Return_power_state \<or> how = Return_standby \<longrightarrow> evs = [])
       \<and> (how = Return_critical \<or> how = Return_end \<longrightarrow>
            faithful_log c D me la ia
              (report_physical_addr D me la
                 (snd (util_interactive_ensure_power_state D me la ia node)))
              evs node')"
  using testRemote_events(1,3,4) [OF assms] testRemote_faithful [OF assms] by blast

theorem testRemote_selection_witness:
  "map ev_subtest
     (fst (snd (testRemote sample_consts sample_dispatch sample_mapTests
                  sample_mapTestsNoWarnings sample_tests sample_node 1 4 12 False)))
     = selected_subtests sample_tests 12
   \<and> selected_subtests sample_tests 12 = standby_resume_subtests
   \<and> for_cec20 (standby_resume_subtests ! 1)
   \<and> faithful_log sample_consts sample_dispatch 1 4 False sample_node
       (fst (snd (testRemote sample_consts sample_dispatch sample_mapTests
                    sample_mapTestsNoWarnings sample_tests sample_node 1 4 12 False)))
       sample_node
   \<and> qualifier_unmet sample_consts sample_dispatch 4 sample_node (standby_resume_subtests ! 1)
   \<and> ran_subtests
       (fst (snd (testRemote sample_consts sample_dispatch sample_mapTests
                    sample_mapTestsNoWarnings sample_tests sample_node 1 4 12 False)))
     = [standby_resume_subtests ! 0]
   \<and> faithful_log sample_consts sample_dispatch 1 4 False cec20_node
       (fst (snd (testRemote sample_consts sample_dispatch sample_mapTests
                    sample_mapTestsNoWarnings sample_tests cec20_node 1 4 12 False)))
       cec20_node
   \<and> ran_subtests
       (fst (snd (testRemote sample_consts sample_dispatch sample_mapTests
                    sample_mapTestsNoWarnings sample_tests cec20_node 1 4 12 False)))
     = standby_resume_subtests"
  using testRemote_selection [OF sample_run_standby] testRemote_selection [OF sample_run_cec20]
  unfolding sample_run_standby sample_run_cec20
  by (simp add: selected_subtests_def sample_tests_def standby_resume_subtests_def
      ran_subtests_def qualifier_unmet_def sample_subtest_def sample_node_def sample_remote_def
      sample_consts_def sample_dispatch_def)

text \<open>
  C3 as the specification words it fails against a TV (address 0) with the tags of
  Device Menu Control and of Power Status selected: Menu Request, whose mask excludes the
  TV, is run, and the Standby/Resume group, one of whose two tags is selected, is not.
\<close>

theorem testRemote_selection_counterexample:
  "ran_subtests
     (fst (snd (testRemote sample_consts sample_dispatch sample_mapTests
                  sample_mapTestsNoWarnings sample_tests sample_node 1 0 6 False)))
     = dev_menu_ctl_subtests
   \<and> spec_selected sample_tests 6 0 = tl dev_menu_ctl_subtests @ standby_resume_subtests
   \<and> ran_subtests
         (fst (snd (testRemote sample_consts sample_dispatch sample_mapTests
                      sample_mapTestsNoWarnings sample_tests sample_node 1 0 6 False)))
       \<noteq> spec_selected sample_tests 6 0"
  unfolding sample_run_tv
  by (simp add: ran_subtests_def spec_selected_def sample_tests_def
      dev_menu_ctl_subtests_def standby_resume_subtests_def system_info_subtests_def
      osd_string_subtests_def sample_subtest_def)

text \<open>
  C4. For every subtest that one call of \<^verbatim>\<open>testRemote\<close> runs: when the applicability
  mask does not have the bit of the remote's logical address and the test function
  returned 0, the recorded outcome is \<^verbatim>\<open>OK_UNEXPECTED\<close>; when the mask has the bit,
  and whenever the test function returned a non-zero value, the recorded outcome is the
  returned one.
\<close>

theorem testRemote_escalation:
  assumes "testRemote c D mt mw tests node me la tt ia = (how, evs, node')"
    and "Ran s raw ret w rep \<in> set evs"
  shows "(la_mask s AND push_bit la 1 = 0 \<and> raw = 0 \<longrightarrow> ret = OK_UNEXPECTED c)
       \<and> (la_mask s AND push_bit la 1 \<noteq> 0 \<longrightarrow> ret = raw)
       \<and> (raw \<noteq> 0 \<longrightarrow> ret = raw)"
proof -
  from testRemote_events(5) [OF assms(1)] assms(2)
  have "Ran s raw ret w rep \<in> step_events c D mt mw me la ia" by blast
  from step_event_Ran(1) [OF this] show ?thesis by simp
qed

theorem testRemote_escalation_witness:
  "Ran (sample_subtest ''Set OSD String with invalid operand'' 1 3) 0 5 False
       (Some (Expected_got 1 0 5))
     \<in> set (fst (snd (testRemote sample_consts sample_dispatch sample_mapTests
                        sample_mapTestsNoWarnings sample_tests sample_node 1 4 3 False)))
   \<and> la_mask (sample_subtest ''Set OSD String with invalid operand'' 1 3) AND push_bit 4 1 = 0
   \<and> OK_UNEXPECTED sample_consts = 5"
  using testRemote_escalation [OF sample_run_playback,
      of "sample_subtest ''Set OSD String with invalid operand'' 1 3" 0 5 False
         "Some (Expected_got 1 0 5)"]
  unfolding sample_run_playback
  by (simp add: sample_subtest_def)

text \<open>
  C5, as the code has it. For every subtest that one call of \<^verbatim>\<open>testRemote\<close> runs,
  with the expectation stored for its sanitized name: when an expectation is declared and
  the recorded outcome differs from it, the line printed shows \<^verbatim>\<open>FAIL\<close>; when the
  outcome equals the expectation, the subtest raised the warning counter and no warnings
  are expected, the line shows \<^verbatim>\<open>FAIL\<close> too; with no expectation
  (\<^verbatim>\<open>DONT_CARE\<close>) the line shows the recorded outcome, unless that is
  \<^verbatim>\<open>NOTAPPLICABLE\<close>, in which case no line is printed.
\<close>

theorem testRemote_report:
  assumes "testRemote c D mt mw tests node me la tt ia = (how, evs, node')"
    and "Ran s raw ret w rep \<in> set evs"
    and "expected = mapTests_at mt (safename D (subtest_name s))"
  shows "(expected \<noteq> DONT_CARE c \<and> ret \<noteq> expected \<longrightarrow> map_option shown rep = Some (FAIL c))
       \<and> (expected \<noteq> DONT_CARE c \<and> ret = expected \<and> w
            \<and> mapTestsNoWarnings_at mw (safename D (subtest_name s))
            \<longrightarrow> map_option shown rep = Some (FAIL c))
       \<and> (expected = DONT_CARE c \<and> ret \<noteq> NOTAPPLICABLE c \<longrightarrow> rep = Some (Plain ret))
       \<and> (expected = DONT_CARE c \<and> ret = NOTAPPLICABLE c \<longrightarrow> rep = None)"
proof -
  from testRemote_events(5) [OF assms(1)] assms(2)
  have "Ran s raw ret w rep \<in> step_events c D mt mw me la ia" by blast
  from step_event_Ran(2) [OF this] obtain n where
    "rep = report_line c D mt mw (subtest_name s) ret w n" ..
  with assms(3) show ?thesis by (simp add: report_line_def)
qed



theorem testRemote_report_witness:
  "Ran (sample_subtest ''Menu Request'' 0xfffe 4) 0 0 True (Some (Expected_no_warnings 1 1))
     \<in> set (fst (snd (testRemote sample_consts sample_dispatch sample_mapTests
                        sample_mapTestsNoWarnings sample_tests sample_node 1 4 3 False)))
   \<and> mapTests_at sample_mapTests (safename sample_dispatch ''Menu Request'') = 0
   \<and> mapTestsNoWarnings_at sample_mapTestsNoWarnings (safename sample_dispatch ''Menu Request'')
   \<and> map_option shown (Some (Expected_no_warnings 1 1)) = Some (FAIL sample_consts)"
  using testRemote_report [OF sample_run_playback,
      of "sample_subtest ''Menu Request'' 0xfffe 4" 0 0 True
         "Some (Expected_no_warnings 1 1)" 0]
  unfolding sample_run_playback
  by (simp add: sample_subtest_def sample_dispatch_def sample_safename_def
      isalnum_def sample_mapTests_def sample_mapTestsNoWarnings_def mapTests_at_def
      mapTestsNoWarnings_at_def sample_consts_def)

text \<open>
  C5 as the specification words it fails for the second OSD subtest against a playback
  device: no expectation is declared for it, it returns \<^verbatim>\<open>NOTAPPLICABLE\<close>, and
  nothing is printed for it.
\<close>

theorem testRemote_report_counterexample:
  "mapTests_at sample_mapTests (safename sample_dispatch ''Set OSD String with no timeout'')
     = DONT_CARE sample_consts
   \<and> Ran (sample_subtest ''Set OSD String with no timeout'' 1 2)
         (NOTAPPLICABLE sample_consts) (NOTAPPLICABLE sample_consts) False None
       \<in> set (fst (snd (testRemote sample_consts sample_dispatch sample_mapTests
                          sample_mapTestsNoWarnings sample_tests sample_node 1 4 3 False)))"
  unfolding sample_run_playback
  by (simp add: sample_dispatch_def sample_safename_def isalnum_def
      sample_mapTests_def mapTests_at_def sample_consts_def)

section \<open>collectTests\<close>

lemma collect_subtests_append:
  "collectTests_subtests c sn (xs @ ys) st =
     (case collectTests_subtests c sn xs st of
        Inl e \<Rightarrow> Inl e
      | Inr st' \<Rightarrow> collectTests_subtests c sn ys st')"
proof (induction xs arbitrary: st)
  case Nil
  then show ?case by simp
next
  case (Cons x xs)
  obtain f m w where st: "st = (f, m, w)" by (cases st)
  show ?case unfolding st by (simp add: Let_def Cons.IH)
qed

lemma collect_tests_flat:
  "collectTests_tests c sn tests st = collectTests_subtests c sn (all_subtests tests) st"
proof (induction tests arbitrary: st)
  case Nil
  then show ?case by (simp add: all_subtests_def)
next
  case (Cons t ts)
  have "all_subtests (t # ts) = subtests t @ all_subtests ts" by (simp add: all_subtests_def)
  then show ?case
    by (simp add: collect_subtests_append Cons.IH split: sum.splits)
qed

lemma collect_subtests_exit:
  "collectTests_subtests c sn xs (f, m, w) = Inl EXIT_FAILURE \<longleftrightarrow>
     (\<exists>a\<in>set xs. \<exists>g. f (sn (subtest_name a)) = Some g \<and> g \<noteq> test_fn a) \<or> name_clash sn xs"
proof (induction xs arbitrary: f m w)
  case Nil
  then show ?case by (simp add: name_clash_def)
next
  case (Cons x xs)
  show ?case
  proof (cases "f (sn (subtest_name x)) \<noteq> None \<and> f (sn (subtest_name x)) \<noteq> Some (test_fn x)")
    case True
    then have "\<exists>g. f (sn (subtest_name x)) = Some g \<and> g \<noteq> test_fn x" by auto
    with True show ?thesis by (auto simp: Let_def)
  next
    case False
    then have fx: "f (sn (subtest_name x)) = None \<or> f (sn (subtest_name x)) = Some (test_fn x)"
      by auto
    have step: "collectTests_subtests c sn (x # xs) (f, m, w) =
        collectTests_subtests c sn xs
          (f(sn (subtest_name x) \<mapsto> test_fn x), m(sn (subtest_name x) \<mapsto> DONT_CARE c),
           w(sn (subtest_name x) \<mapsto> False))"
      using fx by (auto simp: Let_def)
    have "((\<exists>a\<in>set xs. \<exists>g. (f(sn (subtest_name x) \<mapsto> test_fn x)) (sn (subtest_name a)) = Some g
               \<and> g \<noteq> test_fn a) \<or> name_clash sn xs)
          \<longleftrightarrow> ((\<exists>a\<in>set (x # xs). \<exists>g. f (sn (subtest_name a)) = Some g \<and> g \<noteq> test_fn a)
               \<or> name_clash sn (x # xs))"
      (is "?L \<longleftrightarrow> ?R")
    proof
      assume ?L
      then show ?R
      proof
        assume "\<exists>a\<in>set xs. \<exists>g. (f(sn (subtest_name x) \<mapsto> test_fn x)) (sn (subtest_name a)) = Some g
               \<and> g \<noteq> test_fn a"
        then obtain a g where a: "a \<in> set xs"
          "(f(sn (subtest_name x) \<mapsto> test_fn x)) (sn (subtest_name a)) = Some g" "g \<noteq> test_fn a"
          by blast
        show ?R
        proof (cases "sn (subtest_name a) = sn (subtest_name x)")
          case True
          with a have "test_fn x \<noteq> test_fn a" by simp
          with True a(1) have "name_clash sn (x # xs)"
            unfolding name_clash_def by (metis list.set_intros(1) list.set_intros(2))
          then show ?thesis ..
        next
          case False
          with a have "f (sn (subtest_name a)) = Some g" by simp
          with a show ?thesis by auto
        qed
      next
        assume "name_clash sn xs"
        then have "name_clash sn (x # xs)" unfolding name_clash_def by auto
        then show ?R ..
      qed
    next
      assume ?R
      then show ?L
      proof
        assume "\<exists>a\<in>set (x # xs). \<exists>g. f (sn (subtest_name a)) = Some g \<and> g \<noteq> test_fn a"
        then obtain a g where a: "a \<in> set (x # xs)" "f (sn (subtest_name a)) = Some g" "g \<noteq> test_fn a"
          by blast
        with fx have ax: "a \<in> set xs" by auto
        show ?L
        proof (cases "sn (subtest_name a) = sn (subtest_name x)")
          case True
          with a fx have "test_fn x \<noteq> test_fn a" by auto
          with True ax show ?thesis by auto
        next
          case False
          with a ax show ?thesis by auto
        qed
      next
        assume "name_clash sn (x # xs)"
        then obtain a b where ab: "a \<in> set (x # xs)" "b \<in> set (x # xs)"
          "sn (subtest_name a) = sn (subtest_name b)" "test_fn a \<noteq> test_fn b"
          unfolding name_clash_def by blast
        show ?L
        proof (cases "a \<in> set xs \<and> b \<in> set xs")
          case True
          with ab have "name_clash sn xs" unfolding name_clash_def by blast
          then show ?thesis ..
        next
          case False
          with ab have "(a = x \<and> b \<in> set xs) \<or> (b = x \<and> a \<in> set xs)" by auto
          then obtain y where y: "y \<in> set xs" "sn (subtest_name y) = sn (subtest_name x)"
            "test_fn x \<noteq> test_fn y"
            using ab by metis
          then have "(f(sn (subtest_name x) \<mapsto> test_fn x)) (sn (subtest_name y)) = Some (test_fn x)"
            by simp
          with y show ?thesis by blast
        qed
      qed
    qed
    with step Cons.IH show ?thesis by simp
  qed
qed

lemma collect_subtests_maps:
  "collectTests_subtests c sn xs (f, m, w) = Inr (f', m', w') \<Longrightarrow>
     (\<forall>k. m' k = (if k \<in> (\<lambda>s. sn (subtest_name s)) ` set xs then Some (DONT_CARE c) else m k)) \<and>
     (\<forall>k. w' k = (if k \<in> (\<lambda>s. sn (subtest_name s)) ` set xs then Some False else w k))"
proof (induction xs arbitrary: f m w)
  case Nil
  then show ?case by simp
next
  case (Cons x xs)
  from Cons.prems have
    "collectTests_subtests c sn xs
          (f(sn (subtest_name x) \<mapsto> test_fn x), m(sn (subtest_name x) \<mapsto> DONT_CARE c),
           w(sn (subtest_name x) \<mapsto> False)) = Inr (f', m', w')"
    by (simp add: Let_def split: if_splits)
  from Cons.IH [OF this] show ?case by auto
qed

text \<open>
  C6. \<^verbatim>\<open>collectTests\<close> ends the process exactly when two subtests anywhere in the
  catalogue have the same sanitized name and different test functions (so entries with the
  same name and the same function are accepted); when it returns, the sanitized name of
  every subtest of the catalogue is in \<^verbatim>\<open>mapTests\<close> with \<^verbatim>\<open>DONT_CARE\<close> and in
  \<^verbatim>\<open>mapTestsNoWarnings\<close> with false.
\<close>

theorem collectTests_exit_iff:
  "(collectTests c sn tests maps = Inl EXIT_FAILURE \<longleftrightarrow> name_clash sn (all_subtests tests))
   \<and> (\<forall>mapTests' mapTestsNoWarnings'.
        collectTests c sn tests maps = Inr (mapTests', mapTestsNoWarnings') \<longrightarrow>
        (\<forall>s\<in>set (all_subtests tests).
           mapTests' (sn (subtest_name s)) = Some (DONT_CARE c) \<and>
           mapTestsNoWarnings' (sn (subtest_name s)) = Some False))"
proof -
  obtain m0 w0 where maps: "maps = (m0, w0)" by (cases maps)
  let ?r = "collectTests_subtests c sn (all_subtests tests) (Map.empty, m0, w0)"
  have unfold: "collectTests c sn tests maps =
      (case ?r of Inl e \<Rightarrow> Inl e | Inr (f, m, w) \<Rightarrow> Inr (m, w))"
    by (simp add: collectTests_def collect_tests_flat maps)
  have "collectTests c sn tests maps = Inl EXIT_FAILURE \<longleftrightarrow> ?r = Inl EXIT_FAILURE"
    unfolding unfold by (cases ?r) (auto split: prod.splits)
  also have "\<dots> \<longleftrightarrow> name_clash sn (all_subtests tests)"
    by (simp add: collect_subtests_exit)
  finally have exit: "collectTests c sn tests maps = Inl EXIT_FAILURE
      \<longleftrightarrow> name_clash sn (all_subtests tests)" .
  have ok: "mapTests' (sn (subtest_name s)) = Some (DONT_CARE c) \<and>
           mapTestsNoWarnings' (sn (subtest_name s)) = Some False"
    if run: "collectTests c sn tests maps = Inr (mapTests', mapTestsNoWarnings')"
      and s: "s \<in> set (all_subtests tests)" for mapTests' mapTestsNoWarnings' s
  proof -
    from run obtain f' where "?r = Inr (f', mapTests', mapTestsNoWarnings')"
      unfolding unfold by (auto split: sum.splits prod.splits)
    from collect_subtests_maps [OF this] s show ?thesis by auto
  qed
  from exit ok show ?thesis by blast
qed

theorem collectTests_exit_iff_witness:
  "collectTests sample_consts sample_safename clashing_tests (Map.empty, Map.empty)
     = Inl EXIT_FAILURE
   \<and> (\<exists>m w. collectTests sample_consts sample_safename passthrough_tests (Map.empty, Map.empty)
               = Inr (m, w)
             \<and> m ''User-Control-Pressed'' = Some 255 \<and> w ''User-Control-Pressed'' = Some False)"
proof -
  have clash: "name_clash sample_safename (all_subtests clashing_tests)"
    unfolding name_clash_def
    by (rule bexI [of _ "sample_subtest ''Feature aborts unknown messages'' 0xffff 11"],
        rule bexI [of _ "sample_subtest ''Feature aborts-unknown messages'' 0xffff 12"])
       (simp_all add: all_subtests_def clashing_tests_def sample_subtest_def sample_safename_def
          isalnum_def)
  have no_clash: "\<not> name_clash sample_safename (all_subtests passthrough_tests)"
    by (simp add: name_clash_def all_subtests_def passthrough_tests_def
        rc_passthrough_subtests_def dev_menu_ctl_subtests_def sample_subtest_def
        sample_safename_def isalnum_def)
  have ucp: "sample_subtest ''User Control Pressed'' 0xffff 5 \<in> set (all_subtests passthrough_tests)"
    by (simp add: all_subtests_def passthrough_tests_def rc_passthrough_subtests_def)
  have name: "sample_safename (subtest_name (sample_subtest ''User Control Pressed'' 0xffff 5))
      = ''User-Control-Pressed''"
    by (simp add: sample_safename_def sample_subtest_def isalnum_def)
  note A = collectTests_exit_iff [of sample_consts sample_safename clashing_tests
      "(Map.empty, Map.empty)"]
  note B = collectTests_exit_iff [of sample_consts sample_safename passthrough_tests
      "(Map.empty, Map.empty)"]
  from A clash have first:
    "collectTests sample_consts sample_safename clashing_tests (Map.empty, Map.empty)
       = Inl EXIT_FAILURE" by blast
  from B no_clash have
    "collectTests sample_consts sample_safename passthrough_tests (Map.empty, Map.empty)
       \<noteq> Inl EXIT_FAILURE" by blast
  then obtain m w where run:
    "collectTests sample_consts sample_safename passthrough_tests (Map.empty, Map.empty)
       = Inr (m, w)"
    by (cases "collectTests sample_consts sample_safename passthrough_tests (Map.empty, Map.empty)")
       (auto intro: exit_status.exhaust)
  from B run ucp have
    "m (sample_safename (subtest_name (sample_subtest ''User Control Pressed'' 0xffff 5)))
       = Some (DONT_CARE sample_consts)
     \<and> w (sample_safename (subtest_name (sample_subtest ''User Control Pressed'' 0xffff 5)))
       = Some False"
    by blast
  with name have "m ''User-Control-Pressed'' = Some 255 \<and> w ''User-Control-Pressed'' = Some False"
    by (simp add: sample_consts_def)
  with first run show ?thesis by blast
qed

section \<open>setExpectedResult\<close>

lemma strchr_None: "strchr s ch = None \<longleftrightarrow> ch \<notin> set s"
  by (induction s) auto

lemma strchr_Some:
  "strchr s ch = Some k \<Longrightarrow>
     k < length s \<and> s ! k = ch
     \<and> take k s = takeWhile (\<lambda>x. x \<noteq> ch) s \<and> drop k s = dropWhile (\<lambda>x. x \<noteq> ch) s"
proof (induction s arbitrary: k)
  case Nil
  then show ?case by simp
next
  case (Cons x xs)
  show ?case
  proof (cases "x = ch")
    case True
    with Cons.prems show ?thesis by simp
  next
    case False
    with Cons.prems obtain j where j: "strchr xs ch = Some j" "k = Suc j" by auto
    from Cons.IH [OF j(1)] j(2) False show ?thesis by simp
  qed
qed

text \<open>
  C10. With the name the text before the first \<^verbatim>\<open>'='\<close> and the rest the text after
  it: \<^verbatim>\<open>setExpectedResult\<close> returns 1 and leaves both maps as they are when the
  argument has no \<^verbatim>\<open>'='\<close>, or starts with it, or the rest does not start with a
  decimal digit, or the sanitized name is not a key of \<^verbatim>\<open>mapTests\<close>; otherwise it
  returns 0, stores under the sanitized name the number that \<^verbatim>\<open>strtoul\<close> reads from
  the rest, and stores the given flag in \<^verbatim>\<open>mapTestsNoWarnings\<close>.
\<close>

theorem setExpectedResult_cases:
  "setExpectedResult sn strtoul optarg no_warnings maps =
     (let name = takeWhile (\<lambda>x. x \<noteq> CHR ''='') optarg;
          rest = drop 1 (dropWhile (\<lambda>x. x \<noteq> CHR ''='') optarg)
      in if CHR ''='' \<notin> set optarg \<or> take 1 optarg = ''=''
            \<or> rest = [] \<or> \<not> isdigit (hd rest) \<or> sn name \<notin> dom (fst maps)
         then (1, maps)
         else (0, (fst maps)(sn name \<mapsto> int_of_ulong (strtoul rest)),
                  (snd maps)(sn name \<mapsto> no_warnings)))"
proof (cases "strchr optarg CHR ''=''")
  case None
  then have "CHR ''='' \<notin> set optarg" by (simp add: strchr_None)
  with None show ?thesis by (simp add: setExpectedResult_def Let_def)
next
  case (Some k)
  note K = strchr_Some [OF Some]
  have in_set: "CHR ''='' \<in> set optarg"
    using Some strchr_None [of optarg "CHR ''=''"] by simp
  have first: "take 1 optarg = ''='' \<longleftrightarrow> k = 0"
  proof
    assume "take 1 optarg = ''=''"
    then have "takeWhile (\<lambda>x. x \<noteq> CHR ''='') optarg = []" by (cases optarg) auto
    with K show "k = 0" by (cases k) auto
  next
    assume "k = 0"
    with K show "take 1 optarg = ''=''" by (cases optarg) auto
  qed
  have rest: "drop 1 (dropWhile (\<lambda>x. x \<noteq> CHR ''='') optarg) = drop (k + 1) optarg"
    using K by (metis drop_drop add.commute)
  have digit: "isdigit (char_at optarg (k + 1))
      \<longleftrightarrow> drop (k + 1) optarg \<noteq> [] \<and> isdigit (hd (drop (k + 1) optarg))"
  proof (cases "k + 1 < length optarg")
    case True
    then show ?thesis by (simp add: char_at_def hd_drop_conv_nth)
  next
    case False
    then show ?thesis by (simp add: char_at_def isdigit_def)
  qed
  from Some K first rest digit in_set show ?thesis
    by (auto simp: setExpectedResult_def Let_def domIff)
qed

theorem setExpectedResult_cases_witness:
  "setExpectedResult sample_safename sample_strtoul ''Menu Request=1'' True
     (sample_mapTests, sample_mapTestsNoWarnings)
     = (0, sample_mapTests(''Menu-Request'' \<mapsto> 1),
           sample_mapTestsNoWarnings(''Menu-Request'' \<mapsto> True))
   \<and> setExpectedResult sample_safename sample_strtoul ''Menu Request=x'' True
       (sample_mapTests, sample_mapTestsNoWarnings)
     = (1, sample_mapTests, sample_mapTestsNoWarnings)
   \<and> setExpectedResult sample_safename sample_strtoul ''=1'' True
       (sample_mapTests, sample_mapTestsNoWarnings)
     = (1, sample_mapTests, sample_mapTestsNoWarnings)
   \<and> setExpectedResult sample_safename sample_strtoul ''Menu Request=0x10'' False
       (sample_mapTests, sample_mapTestsNoWarnings)
     = (0, sample_mapTests(''Menu-Request'' \<mapsto> 16),
           sample_mapTestsNoWarnings(''Menu-Request'' \<mapsto> False))"
  using setExpectedResult_cases [of sample_safename sample_strtoul "''Menu Request=1''" True
          "(sample_mapTests, sample_mapTestsNoWarnings)"]
        setExpectedResult_cases [of sample_safename sample_strtoul "''Menu Request=0x10''" False
          "(sample_mapTests, sample_mapTestsNoWarnings)"]
        setExpectedResult_cases [of sample_safename sample_strtoul "''Menu Request=x''" True
          "(sample_mapTests, sample_mapTestsNoWarnings)"]
        setExpectedResult_cases [of sample_safename sample_strtoul "''=1''" True
          "(sample_mapTests, sample_mapTestsNoWarnings)"]
  by (simp add: Let_def isdigit_def sample_safename_def isalnum_def sample_strtoul_def
      read_digits_def digit_value_def int_of_ulong_def sample_mapTests_def domIff)

section \<open>core\_unknown\<close>

lemmas script_defs =
  scripted_bus_def ack_def no_reply_def unknown_abort_def utc_2000_def
  sample_consts_def sample_node_def sample_remote_def transmit_timeout_def Let_def

lemma scripted_core_unknown:
  "core_unknown sample_consts (scripted_bus [unknown_abort, no_reply]) sample_node 1 4 False
     = (0, sample_node\<lparr>bus_log := [(Opcode_only 1 4 0xfe, True, unknown_abort),
                                      (Opcode_only 1 15 0xfe, True, no_reply)]\<rparr>)"
  by (simp add: core_unknown_def script_defs)

lemma scripted_core_unknown_standby:
  "core_unknown sample_consts (scripted_bus [no_reply]) (sample_node\<lparr>in_standby := True\<rparr>) 1 4 False
     = (0, sample_node\<lparr>in_standby := True, warnings := 1,
                        bus_log := [(Opcode_only 1 4 0xfe, True, no_reply)]\<rparr>)"
  by (simp add: core_unknown_def script_defs)

text \<open>
  C9, as the code has it. With the reply to opcode 0xfe sent to the remote and the reply
  to the same opcode sent as a broadcast: \<^verbatim>\<open>core_unknown\<close> returns 0 exactly when
  either the directed message was transmitted and answered, in time, by a Feature Abort
  with reason Unrecognized Opcode for opcode 0xfe and the broadcast was transmitted and
  timed out, or the directed message failed or timed out and \<^verbatim>\<open>fail_or_warn\<close>
  evaluated to 0. When the directed message was transmitted and answered in time, every
  other combination of replies gives \<^verbatim>\<open>FAIL\<close>.
\<close>

theorem core_unknown_passes:
  assumes "FAIL c \<noteq> 0"
    and "transmit_timeout B (Opcode_only me la 0xfe) None node = ((ok, msg), node1)"
    and "transmit_timeout B (Opcode_only me (CEC_LOG_ADDR_BROADCAST c) 0xfe) None node1
           = ((ok2, msg2), node2)"
  shows "(fst (core_unknown c B node me la interactive) = 0 \<longleftrightarrow>
            (ok \<and> \<not> timed_out msg \<and> status_is_abort msg
               \<and> feature_abort_reason msg = CEC_OP_ABORT_UNRECOGNIZED_OP c
               \<and> feature_abort_msg msg = 0xfe \<and> ok2 \<and> timed_out msg2)
            \<or> ((\<not> ok \<or> timed_out msg) \<and> fst (fail_or_warn B node1) = 0))
       \<and> (ok \<and> \<not> timed_out msg
            \<and> \<not> (status_is_abort msg
                  \<and> feature_abort_reason msg = CEC_OP_ABORT_UNRECOGNIZED_OP c
                  \<and> feature_abort_msg msg = 0xfe \<and> ok2 \<and> timed_out msg2)
            \<longrightarrow> fst (core_unknown c B node me la interactive) = FAIL c)"
  using assms by (auto simp: core_unknown_def Let_def)

theorem core_unknown_passes_witness:
  "FAIL sample_consts \<noteq> 0
   \<and> fst (core_unknown sample_consts (scripted_bus [unknown_abort, no_reply]) sample_node 1 4 False)
       = 0
   \<and> status_is_abort unknown_abort
   \<and> feature_abort_reason unknown_abort = CEC_OP_ABORT_UNRECOGNIZED_OP sample_consts
   \<and> feature_abort_msg unknown_abort = 0xfe \<and> timed_out no_reply"
proof -
  have nz: "FAIL sample_consts \<noteq> 0" by (simp add: sample_consts_def)
  have tx1: "transmit_timeout (scripted_bus [unknown_abort, no_reply]) (Opcode_only 1 4 0xfe) None
               sample_node
             = ((True, unknown_abort),
                sample_node\<lparr>bus_log := [(Opcode_only 1 4 0xfe, True, unknown_abort)]\<rparr>)"
    by (simp add: transmit_timeout_def scripted_bus_def sample_node_def)
  have tx2: "transmit_timeout (scripted_bus [unknown_abort, no_reply])
               (Opcode_only 1 (CEC_LOG_ADDR_BROADCAST sample_consts) 0xfe) None
               (sample_node\<lparr>bus_log := [(Opcode_only 1 4 0xfe, True, unknown_abort)]\<rparr>)
             = ((True, no_reply),
                sample_node\<lparr>bus_log := [(Opcode_only 1 4 0xfe, True, unknown_abort),
                                         (Opcode_only 1 15 0xfe, True, no_reply)]\<rparr>)"
    by (simp add: transmit_timeout_def scripted_bus_def sample_node_def sample_consts_def)
  have reply: "status_is_abort unknown_abort \<and> \<not> timed_out unknown_abort
      \<and> feature_abort_reason unknown_abort = CEC_OP_ABORT_UNRECOGNIZED_OP sample_consts
      \<and> feature_abort_msg unknown_abort = 0xfe \<and> timed_out no_reply"
    by (simp add: unknown_abort_def no_reply_def ack_def sample_consts_def)
  from core_unknown_passes [OF nz tx1 tx2, of False] reply nz show ?thesis by blast
qed

text \<open>
  C9 as the specification words it fails for a node in standby whose remote does not
  answer the directed message: \<^verbatim>\<open>fail_or_warn\<close> only warns, and the subtest
  returns 0 without any Feature Abort.
\<close>

theorem core_unknown_passes_counterexample:
  "fst (core_unknown sample_consts (scripted_bus [no_reply]) (sample_node\<lparr>in_standby := True\<rparr>)
          1 4 False) = 0
   \<and> bus_log (snd (core_unknown sample_consts (scripted_bus [no_reply])
                      (sample_node\<lparr>in_standby := True\<rparr>) 1 4 False))
       = [(Opcode_only 1 4 0xfe, True, no_reply)]
   \<and> \<not> status_is_abort no_reply \<and> timed_out no_reply"
  unfolding scripted_core_unknown_standby
  by (simp add: no_reply_def ack_def)

section \<open>timer\_errors\<close>

lemma c_rem_zero: "0 < b \<Longrightarrow> c_rem a b = 0 \<longleftrightarrow> a mod b = 0"
  by (simp add: c_rem_def sgn_if mod_eq_0_iff_dvd)

lemma mod_shift: "(n::int) dvd a \<Longrightarrow> (a + k) mod n = 0 \<longleftrightarrow> k mod n = 0"
  by (simp add: mod_eq_0_iff_dvd dvd_add_right_iff)

lemma mod_400_shift: "(1900 + k) mod 400 = 300 \<longleftrightarrow> k mod (400::int) = 0"
proof -
  have "(1900 + k) mod 400 = 300 mod 400 \<longleftrightarrow> (400::int) dvd (1900 + k) - 300"
    by (rule mod_eq_dvd_iff)
  also have "(1900 + k) - 300 = 1600 + k" by simp
  also have "(400::int) dvd 1600 + k \<longleftrightarrow> 400 dvd k"
    by (rule dvd_add_right_iff) simp
  finally show ?thesis by (simp add: mod_eq_0_iff_dvd)
qed

lemma february_error_day_rule:
  "february_error_day t =
     (let y = 1900 + (tm_year t + (if tm_mon t + 1 > Feb then 1 else 0))
      in if y mod 4 = 0 \<and> (y mod 100 \<noteq> 0 \<or> y mod 400 = 300) then 30 else 29)"
  by (simp add: february_error_day_def Let_def c_rem_zero mod_shift mod_400_shift)


lemma scripted_errors_run:
  "fst (timer_errors sample_consts (scripted_bus errors_script) sample_node 1 4 False) = 1
   \<and> fst (last (bus_log (snd (timer_errors sample_consts (scripted_bus errors_script)
                                  sample_node 1 4 False))))
       = Set_analogue_timer 1 4 (mk_timer 29 2 6 0 1 0 0) 0"
  by (simp add: timer_errors_def set_timer_accepted_def send_timer_error_def
      clear_timer_def timer_has_error_def february_error_day_def c_rem_def
      timer_cleared_status_is_valid_def errors_script_def script_defs
      Jan_def Feb_def Aug_def Nov_def Dec_def)



text \<open>
  C8 at 1 January 2000, 0:00 UTC. \<^verbatim>\<open>tm_year\<close> is 100, the target year 2000 is a
  Gregorian leap year, yet the day sent as the invalid day of February is the 29th:
  against a remote that accepts the timer for 29 February 2000, as the script's last
  reply does, \<^verbatim>\<open>timer_errors\<close> returns \<^verbatim>\<open>FAIL\<close>. The same day is chosen
  in June 2399, for the leap year 2400.
\<close>

theorem february_error_day_year_2000:
  "tm_year (utc_2000 946684800) = 100 \<and> tm_mon (utc_2000 946684800) = 0
   \<and> gregorian_leap_year (1900 + tm_year (utc_2000 946684800))
   \<and> february_error_day (utc_2000 946684800) = 29
   \<and> fst (timer_errors sample_consts (scripted_bus errors_script) sample_node 1 4 False)
       = FAIL sample_consts
   \<and> fst (last (bus_log (snd (timer_errors sample_consts (scripted_bus errors_script)
                                  sample_node 1 4 False))))
       = Set_analogue_timer 1 4 (mk_timer 29 2 6 0 1 0 0) 0
   \<and> ts_prog_error (last errors_script) = 0
   \<and> february_error_day \<lparr>tm_min = 0, tm_hour = 0, tm_mday = 1, tm_mon = 5, tm_year = 499\<rparr> = 29
   \<and> gregorian_leap_year 2400"
  using scripted_errors_run
  by (simp add: utc_2000_def gregorian_leap_year_def february_error_day_def c_rem_def Feb_def
      sample_consts_def errors_script_def ack_def)

theorem february_error_day_year_2000_witness:
  "february_error_day \<lparr>tm_min = 0, tm_hour = 0, tm_mday = 1, tm_mon = 0, tm_year = 100\<rparr> = 29
   \<and> gregorian_leap_year 2000"
  using february_error_day_year_2000 by (simp add: utc_2000_def)

section \<open>timer\_overlap\_warning\<close>

lemma transmit_timeout_log:
  "transmit_timeout B req tmo node = ((ok, msg), node1) \<Longrightarrow>
     bus_log node1 = bus_log node @ [(req, ok, msg)]"
  by (auto simp: transmit_timeout_def Let_def split: prod.splits)

lemma fail_on_tests_log:
  assumes "list_all2 step_sends fs RPs"
    and "fail_on_tests c fs (\<lambda>n. (final, n)) node = (ret, node')"
  shows "\<exists>es. bus_log node' = bus_log node @ es \<and> length es \<le> length RPs
           \<and> list_all2 (\<lambda>RP e. fst RP e) (take (length es) RPs) es
           \<and> (ret = FAIL c \<or> (ret = final \<and> list_all2 (\<lambda>RP e. snd RP e) RPs es))"
  using assms
proof (induction fs RPs arbitrary: node rule: list_all2_induct)
  case Nil
  then show ?case by simp
next
  case (Cons f fs RP RPs)
  obtain r node1 where step: "f node = (r, node1)" by (cases "f node")
  from Cons.hyps(1) step obtain e where
    e: "bus_log node1 = bus_log node @ [e]" "fst RP e" "r = 0 \<longrightarrow> snd RP e"
    unfolding step_sends_def by blast
  show ?case
  proof (cases "r = 0")
    case False
    with Cons.prems step have "ret = FAIL c" "node' = node1" by simp_all
    with e show ?thesis by (intro exI [of _ "[e]"]) simp
  next
    case True
    with Cons.prems step have "fail_on_tests c fs (\<lambda>n. (final, n)) node1 = (ret, node')" by simp
    from Cons.IH [OF this] obtain es where es:
      "bus_log node' = bus_log node1 @ es" "length es \<le> length RPs"
      "list_all2 (\<lambda>RP e. fst RP e) (take (length es) RPs) es"
      "ret = FAIL c \<or> (ret = final \<and> list_all2 (\<lambda>RP e. snd RP e) RPs es)"
      by blast
    with e True show ?thesis by (intro exI [of _ "e # es"]) auto
  qed
qed

lemma set_timers_clears:
  "list_all2 (\<lambda>RP e. fst RP e) (take (length es) (replicate n (is_clear, P))) es \<Longrightarrow>
     set_timers es = []"
proof (induction es arbitrary: n)
  case Nil
  then show ?case by (simp add: set_timers_def List.map_filter_simps)
next
  case (Cons e es)
  then obtain k where n: "n = Suc k" by (cases n) auto
  with Cons.prems have e: "is_clear e"
    and rest: "list_all2 (\<lambda>RP e. fst RP e) (take (length es) (replicate k (is_clear, P))) es"
    by simp_all
  from e have "set_timer_of e = None" by (simp add: is_clear_def)
  moreover from Cons.IH [OF rest] have "set_timers es = []" .
  ultimately show ?case
    by (simp add: set_timers_def List.map_filter_simps)
qed

lemma set_timers_prefix:
  "list_all2 (\<lambda>RP e. fst RP e)
     (take (length es) (map (\<lambda>(T, w). (is_set_of T, Q T w)) Ts @ replicate n (is_clear, P))) es \<Longrightarrow>
   prefix (map fst (set_timers es)) (map fst Ts)"
proof (induction es arbitrary: Ts)
  case Nil
  then show ?case by (simp add: set_timers_def List.map_filter_simps)
next
  case (Cons e es)
  show ?case
  proof (cases Ts)
    case Nil
    with Cons.prems have "set_timers (e # es) = []"
      using set_timers_clears [of "e # es" n P] by simp
    then show ?thesis by simp
  next
    case (Cons Tw Ts')
    obtain T w where Tw: "Tw = (T, w)" by (cases Tw)
    from Cons.prems Cons Tw have "is_set_of T e"
      and rest: "list_all2 (\<lambda>RP e. fst RP e)
        (take (length es) (map (\<lambda>(T, w). (is_set_of T, Q T w)) Ts' @ replicate n (is_clear, P))) es"
      by simp_all
    then obtain msg where "set_timer_of e = Some (T, msg)" unfolding is_set_of_def by blast
    with Cons.IH [OF rest] Cons Tw show ?thesis
      by (simp add: set_timers_def List.map_filter_simps)
  qed
qed

lemma set_timer_no_overlap_sends:
  assumes "FAIL c \<noteq> 0"
  shows "step_sends (set_timer_no_overlap c B me la T) (is_set_of T, sent_set me la T False)"
  unfolding step_sends_def
proof (intro allI impI)
  fix node r node1
  assume run: "set_timer_no_overlap c B me la T node = (r, node1)"
  obtain ok msg n1 where tx:
    "transmit_timeout B (Set_analogue_timer me la T (bcast_sys (remote node la))) (Some 10000) node
       = ((ok, msg), n1)"
    by (metis surj_pair)
  from run tx have n1: "node1 = n1"
    by (simp add: set_timer_no_overlap_def Let_def split: if_splits)
  from run tx assms have "r = 0 \<longrightarrow> ok \<and> ts_overlap_warning msg = 0"
    by (auto simp: set_timer_no_overlap_def Let_def timer_overlap_warning_is_set_def split: if_splits)
  with transmit_timeout_log [OF tx] n1
  show "\<exists>e. bus_log node1 = bus_log node @ [e] \<and> fst (is_set_of T, sent_set me la T False) e
          \<and> (r = 0 \<longrightarrow> snd (is_set_of T, sent_set me la T False) e)"
    by (auto simp: sent_set_def is_set_of_def)
qed

lemma send_timer_overlap_sends:
  assumes "FAIL c \<noteq> 0"
  shows "step_sends (send_timer_overlap c B me la d m sh sm dh dm rs)
           (is_set_of (mk_timer d m sh sm dh dm rs), sent_set me la (mk_timer d m sh sm dh dm rs) True)"
  unfolding step_sends_def
proof (intro allI impI)
  fix node r node1
  let ?T = "mk_timer d m sh sm dh dm rs"
  assume run: "send_timer_overlap c B me la d m sh sm dh dm rs node = (r, node1)"
  obtain ok msg n1 where tx:
    "transmit_timeout B (Set_analogue_timer me la ?T (bcast_sys (remote node la))) (Some 10000) node
       = ((ok, msg), n1)"
    by (metis surj_pair)
  from run tx have n1: "node1 = n1"
    by (simp add: send_timer_overlap_def Let_def split: if_splits)
  from run tx assms have "r = 0 \<longrightarrow> ok \<and> ts_overlap_warning msg \<noteq> 0"
    by (auto simp: send_timer_overlap_def Let_def timer_overlap_warning_is_set_def split: if_splits)
  with transmit_timeout_log [OF tx] n1
  show "\<exists>e. bus_log node1 = bus_log node @ [e] \<and> fst (is_set_of ?T, sent_set me la ?T True) e
          \<and> (r = 0 \<longrightarrow> snd (is_set_of ?T, sent_set me la ?T True) e)"
    by (auto simp: sent_set_def is_set_of_def)
qed

lemma clear_timer_sends:
  "step_sends (clear_timer c B me la d m sh sm dh dm rs) (is_clear, is_clear)"
  unfolding step_sends_def
proof (intro allI impI)
  fix node r node1
  let ?T = "mk_timer d m sh sm dh dm rs"
  assume run: "clear_timer c B me la d m sh sm dh dm rs node = (r, node1)"
  obtain ok msg n1 where tx:
    "transmit_timeout B (Clear_analogue_timer me la ?T (bcast_sys (remote node la))) (Some 10000) node
       = ((ok, msg), n1)"
    by (metis surj_pair)
  from run tx have n1: "node1 = n1"
    by (simp add: clear_timer_def Let_def split: if_splits)
  with transmit_timeout_log [OF tx]
  show "\<exists>e. bus_log node1 = bus_log node @ [e] \<and> fst (is_clear, is_clear) e
          \<and> (r = 0 \<longrightarrow> snd (is_clear, is_clear) e)"
    by (auto simp: is_clear_def)
qed

lemma overlap_timers_facts:
  assumes "ts = overlap_timers d m once"
  shows "map (overlaps_earlier ts) [0..<length ts]
           = [False, False, False, True, True, True, True, True]"
    and "intervals_touch (ts ! 0) (ts ! 1)" and "intervals_touch (ts ! 0) (ts ! 2)"
    and "\<forall>k\<in>{3..<8}. intervals_overlap (ts ! 0) (ts ! k)"
proof -
  show "map (overlaps_earlier ts) [0..<length ts]
           = [False, False, False, True, True, True, True, True]"
    unfolding assms
    by (simp add: overlap_timers_def overlaps_earlier_def intervals_overlap_def timer_start_def
        timer_end_def mk_timer_def)
  show "intervals_touch (ts ! 0) (ts ! 1)" "intervals_touch (ts ! 0) (ts ! 2)"
    unfolding assms
    by (simp_all add: overlap_timers_def intervals_touch_def timer_start_def timer_end_def
        mk_timer_def)
  have "{3..<8::nat} = {3, 4, 5, 6, 7}" by auto
  then show "\<forall>k\<in>{3..<8}. intervals_overlap (ts ! 0) (ts ! k)"
    unfolding assms
    by (simp add: overlap_timers_def intervals_overlap_def timer_start_def timer_end_def
        mk_timer_def)
qed

lemma timer_overlap_warning_log:
  assumes codes: "OK c = 0" "FAIL c \<noteq> 0"
    and run: "timer_overlap_warning c B node me la interactive = (ret, node')"
    and t: "t = localtime B (current_time node + 24 * 60 * 60)"
    and ts: "ts = overlap_timers (word_of_int (tm_mday t)) (word_of_int (tm_mon t + 1))
                    (CEC_OP_REC_SEQ_ONCE_ONLY c)"
    and xs: "xs = set_timers (drop (length (bus_log node)) (bus_log node'))"
  shows "prefix (map fst xs) ts"
    and "ret = FAIL c
       \<or> (ret = OK_NOT_SUPPORTED c \<and> length xs = 1)
       \<or> (ret = OK c \<and> map fst xs = ts
            \<and> map warned xs = [False, False, False, True, True, True, True, True])"
proof -
  let ?d = "word_of_int (tm_mday t) :: 8 word"
  let ?m = "word_of_int (tm_mon t + 1) :: 8 word"
  let ?once = "CEC_OP_REC_SEQ_ONCE_ONLY c"
  let ?T0 = "mk_timer ?d ?m 8 0 2 0 ?once"
  let ?req = "Set_analogue_timer me la ?T0 (bcast_sys (remote node la))"
  let ?steps = "[set_timer_no_overlap c B me la (mk_timer ?d ?m 10 0 0 15 ?once),
              set_timer_no_overlap c B me la (mk_timer ?d ?m 7 45 0 15 ?once),
              send_timer_overlap c B me la ?d ?m 9 0 2 0 0x1,
              send_timer_overlap c B me la ?d ?m 7 0 1 30 0x1,
              send_timer_overlap c B me la ?d ?m 8 0 0 30 0x1,
              send_timer_overlap c B me la ?d ?m 9 30 0 30 0x1,
              send_timer_overlap c B me la ?d ?m 6 0 6 0 0x1,
              clear_timer c B me la ?d ?m 8 0 2 0 ?once,
              clear_timer c B me la ?d ?m 10 0 0 15 ?once,
              clear_timer c B me la ?d ?m 7 45 0 15 ?once,
              clear_timer c B me la ?d ?m 9 0 2 0 0x1,
              clear_timer c B me la ?d ?m 7 0 1 30 0x1,
              clear_timer c B me la ?d ?m 8 0 0 30 0x1,
              clear_timer c B me la ?d ?m 9 30 0 30 0x1,
              clear_timer c B me la ?d ?m 6 0 6 0 0x1]"
  let ?Ts = "[(mk_timer ?d ?m 10 0 0 15 ?once, False), (mk_timer ?d ?m 7 45 0 15 ?once, False),
              (mk_timer ?d ?m 9 0 2 0 0x1, True), (mk_timer ?d ?m 7 0 1 30 0x1, True),
              (mk_timer ?d ?m 8 0 0 30 0x1, True), (mk_timer ?d ?m 9 30 0 30 0x1, True),
              (mk_timer ?d ?m 6 0 6 0 0x1, True)]"
  let ?RPs = "map (\<lambda>(T, w). (is_set_of T, sent_set me la T w)) ?Ts
                @ replicate (Suc (Suc (Suc (Suc (Suc (Suc (Suc (Suc 0)))))))) (is_clear, is_clear)"
  have ts': "ts = ?T0 # map fst ?Ts" unfolding ts by (simp add: overlap_timers_def)
  obtain ok msg node1 where tx: "transmit_timeout B ?req (Some 10000) node = ((ok, msg), node1)"
    by (metis surj_pair)
  note log1 = transmit_timeout_log [OF tx]
  have unfold: "timer_overlap_warning c B node me la interactive =
      (if \<not> ok then (FAIL c, node1)
       else if msg_unrecognized_op msg then (OK_NOT_SUPPORTED c, node1)
       else if timed_out_or_abort msg then (FAIL c, node1)
       else if timer_has_error msg then (FAIL c, node1)
       else if timer_overlap_warning_is_set msg then (FAIL c, node1)
       else fail_on_tests c ?steps (\<lambda>node2. (OK c, node2)) node1)"
    unfolding timer_overlap_warning_def Let_def t [symmetric] tx prod.case ..
  have steps: "list_all2 step_sends ?steps ?RPs"
    by (simp add: set_timer_no_overlap_sends send_timer_overlap_sends clear_timer_sends codes)
  consider (early) "ret = FAIL c \<or> ret = OK_NOT_SUPPORTED c" "node' = node1"
    | (rest) "ok" "ts_overlap_warning msg = 0"
        "fail_on_tests c ?steps (\<lambda>node2. (OK c, node2)) node1 = (ret, node')"
    using run unfolding unfold
    by (auto simp: timer_overlap_warning_is_set_def split: if_splits)
  then have "prefix (map fst xs) ts
       \<and> (ret = FAIL c
          \<or> (ret = OK_NOT_SUPPORTED c \<and> length xs = 1)
          \<or> (ret = OK c \<and> map fst xs = ts
               \<and> map warned xs = [False, False, False, True, True, True, True, True]))"
  proof cases
    case early
    with log1 xs have "xs = [(?T0, msg)]" by (simp add: set_timers_def List.map_filter_simps)
    with early ts' show ?thesis by auto
  next
    case rest
    from fail_on_tests_log [OF steps rest(3)] obtain es where
      log2: "bus_log node' = bus_log node1 @ es"
      and sent: "list_all2 (\<lambda>RP e. fst RP e) (take (length es) ?RPs) es"
      and res: "ret = FAIL c \<or> (ret = OK c \<and> list_all2 (\<lambda>RP e. snd RP e) ?RPs es)"
      by blast
    from log1 log2 xs have xs': "xs = (?T0, msg) # set_timers es"
      by (simp add: set_timers_def List.map_filter_simps)
    from set_timers_prefix [OF sent] xs' ts' have pre: "prefix (map fst xs) ts" by simp
    from res have "ret = FAIL c \<or> (ret = OK c \<and> map fst xs = ts
               \<and> map warned xs = [False, False, False, True, True, True, True, True])"
    proof
      assume "ret = FAIL c"
      then show ?thesis ..
    next
      assume "ret = OK c \<and> list_all2 (\<lambda>RP e. snd RP e) ?RPs es"
      then have ok: "ret = OK c" and es: "list_all2 (\<lambda>RP e. snd RP e) ?RPs es" by simp_all
      from es have "map fst (set_timers es) = map fst ?Ts
          \<and> map warned (set_timers es) = [False, False, True, True, True, True, True]"
        by (auto simp: list_all2_Cons1 sent_set_def is_clear_def set_timers_def
            List.map_filter_simps warned_def)
      with xs' rest(2) ts' ok show ?thesis by (simp add: warned_def)
    qed
    with pre show ?thesis by blast
  qed
  then show "prefix (map fst xs) ts"
    and "ret = FAIL c
       \<or> (ret = OK_NOT_SUPPORTED c \<and> length xs = 1)
       \<or> (ret = OK c \<and> map fst xs = ts
            \<and> map warned xs = [False, False, False, True, True, True, True, True])"
    by simp_all
qed

lemma scripted_overlap_run:
  "fst (timer_overlap_warning sample_consts (scripted_bus overlap_script) sample_node 1 4 False) = 0"
  by (simp add: timer_overlap_warning_def set_timer_no_overlap_def send_timer_overlap_def
      clear_timer_def timer_has_error_def timer_overlap_warning_is_set_def
      timer_cleared_status_is_valid_def overlap_script_def script_defs)


text \<open>
  C7. With the header's codes (\<^verbatim>\<open>OK\<close> is 0, \<^verbatim>\<open>FAIL\<close> and
  \<^verbatim>\<open>OK_NOT_SUPPORTED\<close> are not), the eight timers of the subtest and the Set
  Analogue Timer exchanges of one run: the timers sent are, in order, an initial part of
  the eight; when the run returns \<^verbatim>\<open>OK\<close> they are all eight, and each reply
  carries the overlap warning exactly when its timer overlaps an earlier one; whenever,
  after the first exchange, a reply carries the warning although its timer overlaps no
  earlier one, or lacks it although it does, the run returns \<^verbatim>\<open>FAIL\<close>. By the
  intersection test the second and third timer (10:00 for 0:15, 7:45 for 0:15) only touch
  the first (8:00 for 2:00) and overlap nothing, and each of the last five overlaps the
  first.
\<close>

theorem timer_overlap_warning_expectations:
  assumes codes: "OK c = 0" "FAIL c \<noteq> 0" "OK_NOT_SUPPORTED c \<noteq> 0"
    and run: "timer_overlap_warning c B node me la interactive = (ret, node')"
    and t: "t = localtime B (current_time node + 24 * 60 * 60)"
    and ts: "ts = overlap_timers (word_of_int (tm_mday t)) (word_of_int (tm_mon t + 1))
                    (CEC_OP_REC_SEQ_ONCE_ONLY c)"
    and xs: "xs = set_timers (drop (length (bus_log node)) (bus_log node'))"
  shows "prefix (map fst xs) ts
       \<and> (ret = OK c \<longrightarrow>
            map fst xs = ts \<and> map warned xs = map (overlaps_earlier ts) [0..<length ts])
       \<and> (\<forall>i. 0 < i \<and> i < length xs
               \<and> warned (xs ! i) \<noteq> overlaps_earlier ts i \<longrightarrow> ret = FAIL c)
       \<and> map (overlaps_earlier ts) [0..<length ts]
           = [False, False, False, True, True, True, True, True]
       \<and> intervals_touch (ts ! 0) (ts ! 1) \<and> intervals_touch (ts ! 0) (ts ! 2)
       \<and> (\<forall>k\<in>{3..<8}. intervals_overlap (ts ! 0) (ts ! k))"
proof -
  note F = overlap_timers_facts [OF ts]
  note L = timer_overlap_warning_log [OF codes(1,2) run t ts xs]
  have a: "map fst xs = ts \<and> map warned xs = map (overlaps_earlier ts) [0..<length ts]"
    if "ret = OK c"
    using L(2) that codes F(1) by auto
  have len: "length xs \<le> length ts"
    using L(1) by (metis prefix_length_le length_map)
  have b: "ret = FAIL c"
    if i: "0 < i" "i < length xs" "warned (xs ! i) \<noteq> overlaps_earlier ts i" for i
  proof (rule ccontr)
    assume nf: "ret \<noteq> FAIL c"
    with L(2) i have "ret = OK c" by auto
    from a [OF this] have "map warned xs ! i = map (overlaps_earlier ts) [0..<length ts] ! i"
      by simp
    with i len show False by simp
  qed
  from a b F L(1) show ?thesis by blast
qed

theorem timer_overlap_warning_expectations_witness:
  "OK sample_consts = 0 \<and> FAIL sample_consts \<noteq> 0 \<and> OK_NOT_SUPPORTED sample_consts \<noteq> 0
   \<and> fst (timer_overlap_warning sample_consts (scripted_bus overlap_script) sample_node 1 4 False)
       = OK sample_consts
   \<and> map fst (set_timers (bus_log (snd (timer_overlap_warning sample_consts
        (scripted_bus overlap_script) sample_node 1 4 False)))) = overlap_timers 2 1 0
   \<and> map warned (set_timers (bus_log (snd (timer_overlap_warning sample_consts
        (scripted_bus overlap_script) sample_node 1 4 False))))
       = [False, False, False, True, True, True, True, True]"
proof -
  let ?run = "timer_overlap_warning sample_consts (scripted_bus overlap_script) sample_node 1 4 False"
  have codes: "OK sample_consts = 0" "FAIL sample_consts \<noteq> 0" "OK_NOT_SUPPORTED sample_consts \<noteq> 0"
    by (simp_all add: sample_consts_def)
  have run: "?run = (fst ?run, snd ?run)" by simp
  have ok: "fst ?run = OK sample_consts" using scripted_overlap_run codes(1) by simp
  have ts: "overlap_timers 2 1 0 =
      overlap_timers
        (word_of_int (tm_mday (localtime (scripted_bus overlap_script)
                                 (current_time sample_node + 24 * 60 * 60))))
        (word_of_int (tm_mon (localtime (scripted_bus overlap_script)
                                (current_time sample_node + 24 * 60 * 60)) + 1))
        (CEC_OP_REC_SEQ_ONCE_ONLY sample_consts)"
    by (simp add: scripted_bus_def utc_2000_def sample_node_def sample_consts_def)
  have xs: "set_timers (bus_log (snd ?run))
      = set_timers (drop (length (bus_log sample_node)) (bus_log (snd ?run)))"
    by (simp add: sample_node_def)
  from timer_overlap_warning_expectations [OF codes run refl ts xs] ok codes
  show ?thesis by (simp add: overlap_timers_facts(1) [OF refl])
qed



end
